theory Spec2Isabelle
  imports Main
begin

section \<open>Strings, as the build-graph compiler uses them\<close>

text \<open>
  A Python string is a sequence of code points. It is modelled as a \<open>string\<close>, one
  \<open>char\<close> per code point, so the model holds the strings whose code points are below
  256; the theorems on the text of flags are stated for ASCII strings. The methods of
  \<open>str\<close>, \<open>os.path\<close> and \<open>pathlib\<close> that the program calls are written out below, as the
  Python library (3.11) defines them on POSIX.
\<close>

text \<open>
  \<open>str.lower()\<close>: among the code points below 256 the cased capitals are A..Z (65..90)
  and the accented capitals 192..214 and 216..222; each moves 32 up, every other code
  point stays.
\<close>

definition lower_char :: "char \<Rightarrow> char" where
  "lower_char c =
     (let n = (of_char c :: nat)
      in if (65 \<le> n \<and> n \<le> 90) \<or> (192 \<le> n \<and> n \<le> 214) \<or> (216 \<le> n \<and> n \<le> 222)
         then char_of (n + 32) else c)"

definition lower :: "string \<Rightarrow> string" where
  "lower s = map lower_char s"

text \<open>\<open>s.startswith(p)\<close>.\<close>

definition startswith :: "string \<Rightarrow> string \<Rightarrow> bool" where
  "startswith s p = (take (length p) s = p)"

text \<open>
  \<open>s.replace(old, new)\<close>: the occurrences of \<open>old\<close> are found from left to right and do
  not overlap. The program only calls it with a non-empty \<open>old\<close>; for the empty \<open>old\<close>
  (where Python inserts \<open>new\<close> between all characters) the model returns \<open>s\<close>.
\<close>

function replace :: "string \<Rightarrow> string \<Rightarrow> string \<Rightarrow> string" where
  "replace old new s =
     (if old = [] \<or> s = [] then s
      else if startswith s old then new @ replace old new (drop (length old) s)
      else hd s # replace old new (tl s))"
  by pat_completeness auto
termination
  by (relation "measure (\<lambda>(old, new, s). length s)") auto

declare replace.simps [simp del]

text \<open>\<open>s.split(sep)\<close> for a one-character separator: never the empty list.\<close>

fun split :: "char \<Rightarrow> string \<Rightarrow> string list" where
  "split sep [] = [[]]"
| "split sep (c # cs) =
     (if c = sep then [] # split sep cs
      else (case split sep cs of [] \<Rightarrow> [[c]] | p # ps \<Rightarrow> (c # p) # ps))"

text \<open>\<open>sep.join(xs)\<close>.\<close>

fun join :: "string \<Rightarrow> string list \<Rightarrow> string" where
  "join sep [] = []"
| "join sep [x] = x"
| "join sep (x # y # ys) = x @ sep @ join sep (y # ys)"

text \<open>\<open>str(n)\<close> of a Python integer: decimal digits, with a leading minus sign.\<close>

definition digit_char :: "nat \<Rightarrow> char" where
  "digit_char d = ''0123456789'' ! d"

fun str_nat :: "nat \<Rightarrow> string" where
  "str_nat n = (if n < 10 then [digit_char n] else str_nat (n div 10) @ [digit_char (n mod 10)])"

definition str_int :: "int \<Rightarrow> string" where
  "str_int i = (if i < 0 then CHR ''-'' # str_nat (nat (- i)) else str_nat (nat i))"

text \<open>\<open>os.path.join(a, b)\<close> of \<open>posixpath\<close>, for two arguments.\<close>

definition os_path_join :: "string \<Rightarrow> string \<Rightarrow> string" where
  "os_path_join a b =
     (if startswith b ''/'' then b
      else if a = [] \<or> last a = CHR ''/'' then a @ b
      else a @ ''/'' @ b)"

section \<open>\<open>pathlib\<close>: pure POSIX paths\<close>

text \<open>
  A \<open>PurePosixPath\<close> is its root (\<open>''''\<close>, \<open>''/''\<close> or \<open>''//''\<close>) and its parts, the
  names between the separators. Parsing drops the empty names and the names \<open>''.''\<close>.
\<close>

datatype PurePath = PurePath (root: string) (parts: "string list")

text \<open>\<open>splitroot\<close>: exactly two leading separators are kept, any other number is one.\<close>

definition splitroot :: "string \<Rightarrow> string" where
  "splitroot s =
     (if startswith s ''/'' then
        (if length (takeWhile (\<lambda>c. c = CHR ''/'') s) = 2 then ''//'' else ''/'')
      else [])"

definition parse_parts :: "string \<Rightarrow> string list" where
  "parse_parts s = filter (\<lambda>x. x \<noteq> [] \<and> x \<noteq> ''.'') (split CHR ''/'' s)"

text \<open>\<open>Path(s)\<close>.\<close>

definition Path :: "string \<Rightarrow> PurePath" where
  "Path s = PurePath (splitroot s) (parse_parts s)"

text \<open>\<open>p / q\<close>: an absolute right operand replaces the left one.\<close>

definition joinpath :: "PurePath \<Rightarrow> PurePath \<Rightarrow> PurePath" where
  "joinpath p q = (if root q \<noteq> [] then q else PurePath (root p) (parts p @ parts q))"

text \<open>\<open>str(p)\<close>: the empty relative path prints as a dot.\<close>

definition str :: "PurePath \<Rightarrow> string" where
  "str p = (if root p = [] \<and> parts p = [] then ''.'' else root p @ join ''/'' (parts p))"

text \<open>\<open>p.parent\<close>: the path without its last part; a path with no part is its own parent.\<close>

definition parent :: "PurePath \<Rightarrow> PurePath" where
  "parent p = PurePath (root p) (butlast (parts p))"

text \<open>
  \<open>p.suffix\<close> of the final name: from its last dot on, unless that dot is the first or
  the last character of the name.
\<close>

definition rfind_dot :: "string \<Rightarrow> nat option" where
  "rfind_dot name =
     (let k = length (takeWhile (\<lambda>c. c \<noteq> CHR ''.'') (rev name))
      in if k = length name then None else Some (length name - 1 - k))"

definition name_suffix :: "string \<Rightarrow> string" where
  "name_suffix name =
     (case rfind_dot name of
        None \<Rightarrow> []
      | Some i \<Rightarrow> if 0 < i \<and> i < length name - 1 then drop i name else [])"

text \<open>
  The exceptions. A \<open>RuntimeError\<close> carries the message that \<open>builder.py\<close> gives it, a
  \<open>KeyError\<close> the missing key, an \<open>OSError\<close> the path, a \<open>ShellException\<close> the command
  that failed. The message of a \<open>ValueError\<close> of \<open>pathlib\<close> is not modelled.
\<close>

datatype error =
    RuntimeError string
  | ValueError
  | KeyError string
  | AssertionError
  | IndexError
  | OSError string
  | ShellException "string list"

text \<open>
  \<open>p.with_suffix(suffix)\<close>, called by the program with \<open>''.o''\<close> only: a path without a
  final name is refused, a name without suffix gets the new one appended.
\<close>

definition with_suffix :: "PurePath \<Rightarrow> string \<Rightarrow> error + PurePath" where
  "with_suffix p sfx =
     (if parts p = [] then Inl ValueError
      else
        let name = last (parts p); old_suffix = name_suffix name;
            name' = (if old_suffix = [] then name @ sfx
                     else take (length name - length old_suffix) name @ sfx)
        in Inr (PurePath (root p) (butlast (parts p) @ [name'])))"

text \<open>
  \<open>p.relative_to(other)\<close>: \<open>other\<close> must be a leading piece of \<open>p\<close>, root included; the
  result is relative.
\<close>

definition relative_to :: "PurePath \<Rightarrow> PurePath \<Rightarrow> error + PurePath" where
  "relative_to p other =
     (if root p = root other \<and> take (length (parts other)) (parts p) = parts other
      then Inr (PurePath [] (drop (length (parts other)) (parts p)))
      else Inl ValueError)"

section \<open>The resolved project model\<close>

text \<open>
  The modules \<open>model\<close>, \<open>rules\<close>, \<open>ninja\<close>, \<open>shell\<close> and \<open>cli\<close> are used by \<open>builder.py\<close>
  through the fields and methods below only.
\<close>

text \<open>
  Modelled from the spec: \<open>model.Kind\<close>, ``Library | Executable | other variants''; the
  program compares a kind with \<open>Kind.LIB\<close> only.
\<close>

datatype Kind = LIB | EXE | OTHER string

text \<open>
  Modelled from the spec: a value of a \<open>props\<close> mapping, ``boolean | string | number''.
  The program reads a value that is not a boolean through \<open>str(v)\<close> only, so a number
  that is not an integer behaves as the string \<open>str(v)\<close>.
\<close>

datatype PropValue = PBool bool | PStr string | PInt int

text \<open>\<open>str(v)\<close>.\<close>

fun py_str :: "PropValue \<Rightarrow> string" where
  "py_str (PBool b) = (if b then ''True'' else ''False'')"
| "py_str (PStr s) = s"
| "py_str (PInt i) = str_int i"

text \<open>
  Modelled from the spec: \<open>model.Tool\<close> (``\<open>cmd\<close>: invocation string, \<open>args\<close>: extra flags,
  \<open>files\<close>: the toolchain's own file set'') and \<open>rules.Rule\<close> (its command-line template
  \<open>rule\<close>, its default arguments \<open>args\<close> and its optional dependency-file convention
  \<open>deps\<close>).
\<close>

record Tool =
  cmd :: string
  args :: "string list"
  files :: "string list"

record Rule =
  rule_rule :: string
  rule_args :: "string list"
  rule_deps :: "string option"

text \<open>
  Modelled from the spec: \<open>model.Target\<close>, with its \<open>id\<close>, \<open>builddir\<close>, \<open>hashid\<close>, \<open>props\<close>
  and \<open>tools\<close>. A dictionary that the program iterates (\<open>props\<close>, \<open>tools\<close>) is the list of
  its items in insertion order, with distinct keys; \<open>d[k]\<close> and \<open>k in d\<close> go through
  \<open>map_of\<close>.
\<close>

record Target =
  t_id :: string
  builddir :: string
  hashid :: string
  t_props :: "(string \<times> PropValue) list"
  tools :: "(string \<times> Tool) list"

text \<open>
  Modelled from the spec: \<open>model.Component\<close>, with its \<open>id\<close>, its kind \<open>type\<close>, its
  directory, its extra source subdirectories, its \<open>props\<close> and its resolved dependency
  lists. \<open>dirname\<close> is what the method \<open>c.dirname()\<close> returns; \<open>resolved\<close> maps a target id
  to the list \<open>component.resolved[target.id].resolved\<close>, and is undefined where the
  dictionary has no such key.
\<close>

record Component =
  c_id :: string
  ctype :: Kind
  dirname :: string
  subdirs :: "string list"
  c_props :: "(string \<times> PropValue) list"
  resolved :: "string \<Rightarrow> string list option"

text \<open>
  Modelled from the spec: the class \<open>model.Registry\<close>, ``a read-only view exposing (a)
  enumeration of components enabled for a given target, (b) lookup by id with expected
  kind''. \<open>lookup\<close> returns \<open>None\<close> for an id it does not hold, as the checks of its
  callers in \<open>builder.py\<close> show.
\<close>

record Registry =
  iterEnabled :: "Target \<Rightarrow> Component list"
  lookup :: "string \<Rightarrow> Component option"

text \<open>
  Modelled from the spec: \<open>component.subpath(path)\<close>, the path below the component's
  directory (``the component's \<open>res\<close> subdirectory'').
\<close>

definition subpath :: "Component \<Rightarrow> string \<Rightarrow> PurePath" where
  "subpath c p = joinpath (Path (dirname c)) (Path p)"

subsection \<open>The graph writer\<close>

text \<open>
  Modelled from the spec: \<open>ninja.Writer\<close> appends statements to the graph document. The
  model keeps the document as the list of the statements written so far, one per call
  of a writer method; a build edge holds its outputs, rule, inputs, implicit inputs and
  order-only inputs.
\<close>

datatype Stmt =
    Comment string
  | Newline
  | Separator string
  | Variable string string
  | RuleDecl string string "string option"
  | Build (outputs: "string list") (edge_rule: string) (inputs: "string list")
      (implicit: "string list") (order_only: "string list")
  | Default string

type_synonym Writer = "Stmt list"

subsection \<open>The collaborators\<close>

text \<open>
  Modelled from the spec: the file system, the subprocess runner and the rule table are
  outside \<open>builder.py\<close>. \<open>shell_find dirs wildcards recursive\<close> is the result of
  \<open>shell.find\<close>; \<open>mkdir_ok\<close>, \<open>open_ok\<close> and \<open>exec_ok\<close> tell whether \<open>shell.mkdir\<close>, \<open>open\<close>
  for writing and \<open>shell.exec\<close> succeed (they raise otherwise); \<open>set_iter\<close> is the order in
  which the runtime iterates a set of strings; \<open>rules\<close> is the table \<open>rules.rules\<close>.
\<close>

record Env =
  shell_find :: "string list \<Rightarrow> string list \<Rightarrow> bool \<Rightarrow> string list"
  mkdir_ok :: "string \<Rightarrow> bool"
  open_ok :: "string \<Rightarrow> bool"
  exec_ok :: "string list \<Rightarrow> bool"
  set_iter :: "string set \<Rightarrow> string list"
  rules :: "string \<Rightarrow> Rule option"

text \<open>
  What a command leaves behind: the directories made, the files written (latest first),
  the subprocesses run and the environment variables set, each in order.
\<close>

record World =
  dirs :: "string list"
  written :: "(string \<times> Writer) list"
  execs :: "string list list"
  environ :: "(string \<times> string) list"

section \<open>Flag aggregation\<close>

definition cinc_step :: "Component \<Rightarrow> string set \<Rightarrow> string set" where
  "cinc_step c res =
     (if ''cpp-root-include'' \<in> set (map fst (c_props c)) then insert (dirname c) res
      else if ctype c = LIB then insert (str (parent (Path (dirname c)))) res
      else res)"

definition aggregateCincs :: "Target \<Rightarrow> Registry \<Rightarrow> string set" where
  "aggregateCincs target registry =
     (\<lambda>i. ''-I'' @ i) ` fold cinc_step (iterEnabled registry target) {}"

definition sanatize :: "string \<Rightarrow> string" where
  "sanatize s = replace ''.'' ''_'' (replace ''-'' ''_'' (replace '' '' ''_'' (lower s)))"

fun cdef_step :: "string \<times> PropValue \<Rightarrow> string set \<Rightarrow> string set" where
  "cdef_step (k, PBool v) res =
     (if v then insert (''-D__ck_'' @ sanatize k @ ''__'') res else res)"
| "cdef_step (k, v) res =
     insert (''-D__ck_'' @ sanatize k @ ''_value='' @ py_str v)
       (insert (''-D__ck_'' @ sanatize k @ ''_'' @ sanatize (py_str v) @ ''__'') res)"

definition aggregateCdefs :: "Target \<Rightarrow> string set" where
  "aggregateCdefs target = fold cdef_step (t_props target) {}"

section \<open>Path allocation\<close>

definition buildpath :: "Target \<Rightarrow> Component \<Rightarrow> string \<Rightarrow> PurePath" where
  "buildpath target component p =
     joinpath (joinpath (Path (builddir target)) (Path (c_id component))) (Path p)"

definition outfile :: "Target \<Rightarrow> Component \<Rightarrow> string" where
  "outfile target component =
     (if ctype component = LIB
      then str (buildpath target component (''lib/'' @ c_id component @ ''.a''))
      else str (buildpath target component (''bin/'' @ c_id component @ ''.out'')))"

section \<open>Compilation\<close>

definition wilcard :: "Env \<Rightarrow> Component \<Rightarrow> string list \<Rightarrow> string list" where
  "wilcard env component wildcards =
     shell_find env
       (dirname component # map (\<lambda>d. os_path_join (dirname component) d) (subdirs component))
       wildcards False"

text \<open>
  A function that writes to the graph returns its result, or the exception it raised,
  together with the document as it stands at that moment.
\<close>

text \<open>The object path of one source: the first two lines of the loop of \<open>compile\<close>.\<close>

definition compile_dest :: "Target \<Rightarrow> Component \<Rightarrow> string \<Rightarrow> error + PurePath" where
  "compile_dest target component src =
     (case relative_to (Path src) (Path (dirname component)) of
        Inl e \<Rightarrow> Inl e
      | Inr rel \<Rightarrow>
          (case with_suffix rel ''.o'' of
             Inl e \<Rightarrow> Inl e
           | Inr relo \<Rightarrow> Inr (joinpath (buildpath target component ''obj'') relo)))"

fun compile_loop ::
  "Target \<Rightarrow> Component \<Rightarrow> string \<Rightarrow> string list \<Rightarrow> string list \<Rightarrow> Writer
     \<Rightarrow> (error + string list) \<times> Writer" where
  "compile_loop target component rule [] res w = (Inr res, w)"
| "compile_loop target component rule (src # srcs) res w =
     (case compile_dest target component src of
        Inl e \<Rightarrow> (Inl e, w)
      | Inr dest \<Rightarrow>
          (case map_of (tools target) rule of
             None \<Rightarrow> (Inl (KeyError rule), w)
           | Some t \<Rightarrow>
               compile_loop target component rule srcs (res @ [str dest])
                 (w @ [Build [str dest] rule [src] [] (files t)])))"

definition compile ::
  "Writer \<Rightarrow> Target \<Rightarrow> Component \<Rightarrow> string \<Rightarrow> string list \<Rightarrow> (error + string list) \<times> Writer" where
  "compile w target component rule srcs = compile_loop target component rule srcs [] w"

section \<open>Resources\<close>

definition listRes :: "Env \<Rightarrow> Component \<Rightarrow> string list" where
  "listRes env component = shell_find env [str (subpath component ''res'')] [] True"

fun compileRes_loop ::
  "Target \<Rightarrow> Component \<Rightarrow> string list \<Rightarrow> string list \<Rightarrow> Writer
     \<Rightarrow> (error + string list) \<times> Writer" where
  "compileRes_loop target component [] res w = (Inr res, w)"
| "compileRes_loop target component (r # rs) res w =
     (case relative_to (Path r) (subpath component ''res'') of
        Inl e \<Rightarrow> (Inl e, w)
      | Inr rel \<Rightarrow>
          let dest = joinpath (buildpath target component ''res'') rel in
          compileRes_loop target component rs (res @ [str dest])
            (w @ [Build [str dest] ''cp'' [r] [] []]))"

definition compileRes ::
  "Env \<Rightarrow> Writer \<Rightarrow> Target \<Rightarrow> Component \<Rightarrow> (error + string list) \<times> Writer" where
  "compileRes env w target component =
     compileRes_loop target component (listRes env component) [] w"

section \<open>Linking\<close>

fun collectLibs_loop ::
  "Registry \<Rightarrow> Target \<Rightarrow> Component \<Rightarrow> string list \<Rightarrow> string list \<Rightarrow> error + string list" where
  "collectLibs_loop registry target component [] res = Inr res"
| "collectLibs_loop registry target component (r # rs) res =
     (case lookup registry r of
        None \<Rightarrow> Inl AssertionError
      | Some req \<Rightarrow>
          if r = c_id component then collectLibs_loop registry target component rs res
          else if \<not> ctype req = LIB
          then Inl (RuntimeError (''Component '' @ r @ '' is not a library''))
          else collectLibs_loop registry target component rs (res @ [outfile target req]))"

definition collectLibs :: "Registry \<Rightarrow> Target \<Rightarrow> Component \<Rightarrow> error + string list" where
  "collectLibs registry target component =
     (case resolved component (t_id target) of
        None \<Rightarrow> Inl (KeyError (t_id target))
      | Some rs \<Rightarrow> collectLibs_loop registry target component rs [])"

definition link ::
  "Env \<Rightarrow> Writer \<Rightarrow> Registry \<Rightarrow> Target \<Rightarrow> Component \<Rightarrow> (error + string) \<times> Writer" where
  "link env w registry target component =
     (let w0 = w @ [Newline];
          out = outfile target component
      in case compile w0 target component ''cc'' (wilcard env component [''*.c'']) of
           (Inl e, w1) \<Rightarrow> (Inl e, w1)
         | (Inr objs1, w1) \<Rightarrow>
      (case compile w1 target component ''cxx''
              (wilcard env component [''*.cpp'', ''*.cc'', ''*.cxx'']) of
           (Inl e, w2) \<Rightarrow> (Inl e, w2)
         | (Inr objs2, w2) \<Rightarrow>
      (case compile w2 target component ''as''
              (wilcard env component [''*.s'', ''*.asm'', ''*.S'']) of
           (Inl e, w3) \<Rightarrow> (Inl e, w3)
         | (Inr objs3, w3) \<Rightarrow>
      (case compileRes env w3 target component of
           (Inl e, w4) \<Rightarrow> (Inl e, w4)
         | (Inr res, w4) \<Rightarrow>
      (case collectLibs registry target component of
           Inl e \<Rightarrow> (Inl e, w4)
         | Inr libs \<Rightarrow>
             let objs = objs1 @ objs2 @ objs3 in
             if ctype component = LIB
             then (Inr out, w4 @ [Build [out] ''ar'' objs res []])
             else (Inr out, w4 @ [Build [out] ''ld'' (objs @ libs) res []]))))))"

section \<open>The aggregate goal and the graph document\<close>

fun all_loop ::
  "Env \<Rightarrow> Registry \<Rightarrow> Target \<Rightarrow> Component list \<Rightarrow> string list \<Rightarrow> Writer
     \<Rightarrow> (error + string list) \<times> Writer" where
  "all_loop env registry target [] acc w = (Inr acc, w)"
| "all_loop env registry target (c # cs) acc w =
     (case link env w registry target c of
        (Inl e, w') \<Rightarrow> (Inl e, w')
      | (Inr out, w') \<Rightarrow> all_loop env registry target cs (acc @ [out]) w')"

definition all :: "Env \<Rightarrow> Writer \<Rightarrow> Registry \<Rightarrow> Target \<Rightarrow> (error + string list) \<times> Writer" where
  "all env w registry target =
     (case all_loop env registry target (iterEnabled registry target) [] w of
        (Inl e, w') \<Rightarrow> (Inl e, w')
      | (Inr outs, w') \<Rightarrow> (Inr outs, w' @ [Build [''all''] ''phony'' outs [] [], Default ''all'']))"

fun gen_tools :: "Env \<Rightarrow> (string \<times> Tool) list \<Rightarrow> Writer \<Rightarrow> (error + unit) \<times> Writer" where
  "gen_tools env [] w = (Inr (), w)"
| "gen_tools env ((i, tool) # ts) w =
     (case rules env i of
        None \<Rightarrow> (Inl (KeyError i), w)
      | Some rule \<Rightarrow>
          gen_tools env ts
            (w @ [Variable i (cmd tool),
                  Variable (i @ ''flags'') (join '' '' (rule_args rule @ args tool)),
                  RuleDecl i
                    (cmd tool @ '' '' @ replace ''$flags'' (''$'' @ i @ ''flags'') (rule_rule rule))
                    (rule_deps rule),
                  Newline]))"

text \<open>\<open>gen\<close> starts a new document, the text written to \<open>out\<close>.\<close>

definition gen :: "Env \<Rightarrow> Target \<Rightarrow> Registry \<Rightarrow> (error + unit) \<times> Writer" where
  "gen env target registry =
     (let w = [Comment ''File generated by the build system, do not edit'',
               Newline,
               Variable ''builddir'' (builddir target),
               Variable ''hashid'' (hashid target),
               Separator ''Tools'',
               Variable ''cincs'' (join '' '' (set_iter env (aggregateCincs target registry))),
               Variable ''cdefs'' (join '' '' (set_iter env (aggregateCdefs target))),
               Newline,
               RuleDecl ''cp'' ''cp $in $out'' None]
      in case gen_tools env (tools target) w of
           (Inl e, w') \<Rightarrow> (Inl e, w')
         | (Inr u, w') \<Rightarrow>
             (case all env (w' @ [Separator ''Build'']) registry target of
                (Inl e, w'') \<Rightarrow> (Inl e, w'')
              | (Inr outs, w'') \<Rightarrow> (Inr (), w'')))"

section \<open>The build orchestrator\<close>

record Product =
  p_path :: PurePath
  p_target :: Target
  p_component :: Component

text \<open>The argument \<open>components\<close>: \<open>None\<close>, one component, or a list of components.\<close>

datatype Requested = NoComponents | Single Component | Several "Component list"

definition ninja_argv :: "string \<Rightarrow> string list" where
  "ninja_argv ninjaPath = [''ninja'', ''-v'', ''-f'', ninjaPath]"

definition build ::
  "Env \<Rightarrow> Target \<Rightarrow> Registry \<Rightarrow> Requested \<Rightarrow> World \<Rightarrow> (error + Product list) \<times> World" where
  "build env target registry components world =
     (if \<not> mkdir_ok env (builddir target) then (Inl (OSError (builddir target)), world)
      else
        let world1 = world\<lparr>dirs := dirs world @ [builddir target]\<rparr>;
            ninjaPath = os_path_join (builddir target) ''build.ninja''
        in if \<not> open_ok env ninjaPath then (Inl (OSError ninjaPath), world1)
        else
          (case gen env target registry of
             (Inl e, f) \<Rightarrow> (Inl e, world1\<lparr>written := (ninjaPath, f) # written world1\<rparr>)
           | (Inr u, f) \<Rightarrow>
               let world2 = world1\<lparr>written := (ninjaPath, f) # written world1\<rparr>;
                   all = (case components of NoComponents \<Rightarrow> True | _ \<Rightarrow> False);
                   components' =
                     (case components of
                        NoComponents \<Rightarrow> iterEnabled registry target
                      | Single c \<Rightarrow> [c]
                      | Several cs \<Rightarrow> cs);
                   products =
                     map (\<lambda>c. \<lparr>p_path = Path (outfile target c), p_target = target, p_component = c\<rparr>)
                       components';
                   outs = map (\<lambda>p. str (p_path p)) products;
                   argv = (if all then ninja_argv ninjaPath else ninja_argv ninjaPath @ outs)
               in if exec_ok env argv
                  then (Inr products, world2\<lparr>execs := execs world2 @ [argv]\<rparr>)
                  else (Inl (ShellException argv), world2\<lparr>execs := execs world2 @ [argv]\<rparr>)))"

section \<open>Commands\<close>

text \<open>
  Modelled from the spec: \<open>cli.Args\<close>, the positional arguments left and the options;
  \<open>consumeArg\<close> takes the first positional argument, or gives \<open>None\<close>. The registry and the
  target that \<open>Registry.use\<close> and \<open>Target.use\<close> load are parameters of the commands.
\<close>

record Args =
  opt_debug :: bool
  cli_args :: "string list"

definition consumeArg :: "Args \<Rightarrow> string option \<times> Args" where
  "consumeArg a =
     (case cli_args a of
        [] \<Rightarrow> (None, a)
      | x # xs \<Rightarrow> (Some x, a\<lparr>cli_args := xs\<rparr>))"

text \<open>The subscript \<open>[0]\<close> that both commands apply to the Products of \<open>build\<close>.\<close>

definition item0 :: "'a list \<Rightarrow> error + 'a" where
  "item0 xs = (if xs = [] then Inl IndexError else Inr (hd xs))"

definition requested :: "Component option \<Rightarrow> Requested" where
  "requested c = (case c of None \<Rightarrow> NoComponents | Some x \<Rightarrow> Single x)"

definition buildCmd ::
  "Env \<Rightarrow> Registry \<Rightarrow> Target \<Rightarrow> Args \<Rightarrow> World \<Rightarrow> (error + unit) \<times> World" where
  "buildCmd env registry target a world =
     (case consumeArg a of
        (None, a') \<Rightarrow> (Inl (RuntimeError ''No component specified''), world)
      | (Some componentSpec, a') \<Rightarrow>
          let component = lookup registry componentSpec in
          (case build env target registry (requested component) world of
             (Inl e, world') \<Rightarrow> (Inl e, world')
           | (Inr products, world') \<Rightarrow>
               (case item0 products of
                  Inl e \<Rightarrow> (Inl e, world')
                | Inr p \<Rightarrow> (Inr (), world'))))"

definition runCmd ::
  "Env \<Rightarrow> Registry \<Rightarrow> Target \<Rightarrow> Args \<Rightarrow> World \<Rightarrow> (error + unit) \<times> World" where
  "runCmd env registry target a world =
     (let debug = opt_debug a in
      case consumeArg a of
        (None, a') \<Rightarrow> (Inl (RuntimeError ''No component specified''), world)
      | (Some componentSpec, a') \<Rightarrow>
          (case lookup registry componentSpec of
             None \<Rightarrow> (Inl (RuntimeError (''Component '' @ componentSpec @ '' not found'')), world)
           | Some component \<Rightarrow>
               (case build env target registry (Single component) world of
                  (Inl e, world') \<Rightarrow> (Inl e, world')
                | (Inr products, world') \<Rightarrow>
                    (case item0 products of
                       Inl e \<Rightarrow> (Inl e, world')
                     | Inr product \<Rightarrow>
                         let world'' = world'\<lparr>environ := environ world' @
                               [(''CK_TARGET'', t_id target),
                                (''CK_COMPONENT'', c_id (p_component product)),
                                (''CK_BUILDDIR'', builddir target)]\<rparr>;
                             argv = (if debug then [''lldb'', ''-o'', ''run''] else []) @
                                    [str (p_path product)] @ cli_args a'
                         in if exec_ok env argv
                            then (Inr (), world''\<lparr>execs := execs world'' @ [argv]\<rparr>)
                            else (Inl (ShellException argv),
                                  world''\<lparr>execs := execs world'' @ [argv]\<rparr>)))))"

text \<open>\<open>test\<close> runs the component \<open>__tests__\<close>, \<open>debug\<close> runs with the debugger.\<close>

definition testCmd ::
  "Env \<Rightarrow> Registry \<Rightarrow> Target \<Rightarrow> Args \<Rightarrow> World \<Rightarrow> (error + unit) \<times> World" where
  "testCmd env registry target a world =
     runCmd env registry target (a\<lparr>cli_args := ''__tests__'' # cli_args a\<rparr>) world"

definition debugCmd ::
  "Env \<Rightarrow> Registry \<Rightarrow> Target \<Rightarrow> Args \<Rightarrow> World \<Rightarrow> (error + unit) \<times> World" where
  "debugCmd env registry target a world =
     runCmd env registry target (a\<lparr>opt_debug := True\<rparr>) world"

section \<open>The specification's wording\<close>

text \<open>
  The definitions of this section follow the words of the specification; the theorems
  compare them with the program above.
\<close>






text \<open>
  The parent of a directory: the directory named by its text without the last name,
  printed as a path.
\<close>

definition spec_parent_dir :: "string \<Rightarrow> string" where
  "spec_parent_dir d = str (PurePath (splitroot d) (butlast (parse_parts d)))"

text \<open>
  The include directories of one component: its own directory when it is marked as an
  include root, else the parent of its directory when it is a library, else none.
\<close>

definition include_dirs :: "Component \<Rightarrow> string set" where
  "include_dirs c =
     (if ''cpp-root-include'' \<in> set (map fst (c_props c)) then {dirname c}
      else if ctype c = LIB then {spec_parent_dir (dirname c)}
      else {})"

text \<open>\<open>artifactRoot(target, component) = <builddir>/<componentId>\<close>.\<close>

definition artifactRoot :: "Target \<Rightarrow> Component \<Rightarrow> PurePath" where
  "artifactRoot t c = joinpath (Path (builddir t)) (Path (c_id c))"

text \<open>The directory and the extension of a final artifact, by kind.\<close>

definition out_dir :: "Component \<Rightarrow> string" where
  "out_dir c = (if ctype c = LIB then ''lib'' else ''bin'')"

definition out_ext :: "Component \<Rightarrow> string" where
  "out_ext c = (if ctype c = LIB then ''.a'' else ''.out'')"

text \<open>
  \<open>finalArtifactPath\<close>: \<open><root>/lib/<id>.a\<close> for a library, \<open><root>/bin/<id>.out\<close> for any
  other kind; first as a path below the artifact root, then as the text
  \<open><builddir>/<id>/lib/<id>.a\<close>.
\<close>

definition spec_finalArtifact :: "Target \<Rightarrow> Component \<Rightarrow> PurePath" where
  "spec_finalArtifact t c =
     joinpath (joinpath (artifactRoot t c) (Path (out_dir c))) (Path (c_id c @ out_ext c))"

definition spec_finalArtifactPath :: "Target \<Rightarrow> Component \<Rightarrow> string" where
  "spec_finalArtifactPath t c =
     (if ctype c = LIB
      then builddir t @ ''/'' @ c_id c @ ''/lib/'' @ c_id c @ ''.a''
      else builddir t @ ''/'' @ c_id c @ ''/bin/'' @ c_id c @ ''.out'')"

text \<open>
  A source below the component's directory: its names after those of the directory, and
  the condition that there is at least one.
\<close>

definition rel_parts :: "Component \<Rightarrow> string \<Rightarrow> string list" where
  "rel_parts c src = drop (length (parse_parts (dirname c))) (parse_parts src)"

definition under_root :: "Component \<Rightarrow> string \<Rightarrow> bool" where
  "under_root c src \<longleftrightarrow>
     splitroot src = splitroot (dirname c) \<and>
     take (length (parse_parts (dirname c))) (parse_parts src) = parse_parts (dirname c) \<and>
     rel_parts c src \<noteq> []"

text \<open>A file name without its extension.\<close>

definition stem :: "string \<Rightarrow> string" where
  "stem name = take (length name - length (name_suffix name)) name"

text \<open>
  The object of a source, as text: \<open><builddir>/<componentId>/obj/\<close> followed by the
  path of the source relative to the component, with the extension of the file name
  replaced by \<open>.o\<close>.
\<close>

definition spec_object_text :: "Target \<Rightarrow> Component \<Rightarrow> string \<Rightarrow> string" where
  "spec_object_text t c src =
     builddir t @ ''/'' @ c_id c @ ''/obj/'' @
     join ''/'' (butlast (rel_parts c src) @ [stem (last (rel_parts c src)) @ ''.o''])"

text \<open>
  The compile edges of a list of sources under one rule, in the specification's
  wording: per source, the object text in the normal form in which paths are printed,
  the rule, the source as the only explicit input, and the files of the target's tool
  for the rule as order-only inputs.
\<close>

definition spec_compile_edges :: "Target \<Rightarrow> Component \<Rightarrow> string \<Rightarrow> string list \<Rightarrow> Stmt list" where
  "spec_compile_edges t c rule srcs =
     (case map_of (tools t) rule of
        None \<Rightarrow> []
      | Some tool \<Rightarrow>
          map (\<lambda>src. Build [str (Path (spec_object_text t c src))] rule [src] [] (files tool))
            srcs)"

section \<open>Closed forms and conditions\<close>

text \<open>
  The definitions of this section are not the specification's: they name in closed form
  what the program computes, each justified by a lemma, and the conditions under which
  the theorems hold.
\<close>

text \<open>
  The object path that \<open>compile\<close> computes for a source below the component's directory (lemma
  \<open>compile_dest_str\<close>), the names of the source after those of the directory appended to
  the path that \<open>buildpath\<close> joins.
\<close>

definition object_path :: "Target \<Rightarrow> Component \<Rightarrow> string \<Rightarrow> string" where
  "object_path t c src =
     str (PurePath (root (artifactRoot t c))
            (parts (artifactRoot t c) @ [''obj''] @ butlast (rel_parts c src) @
             [stem (last (rel_parts c src)) @ ''.o'']))"

text \<open>
  The compile edges that \<open>compile\<close> writes for a list of sources under one rule, in
  order.
\<close>

definition compile_edges :: "Target \<Rightarrow> Component \<Rightarrow> string \<Rightarrow> string list \<Rightarrow> Stmt list" where
  "compile_edges t c rule srcs =
     (case map_of (tools t) rule of
        None \<Rightarrow> []
      | Some tool \<Rightarrow>
          map (\<lambda>src. Build [object_path t c src] rule [src] [] (files tool)) srcs)"

text \<open>The terminal edge of a component is the one bound to the archive or the link rule.\<close>

fun terminal_edge :: "Stmt \<Rightarrow> bool" where
  "terminal_edge (Build outs r ins imp oo) = (r = ''ar'' \<or> r = ''ld'')"
| "terminal_edge _ = False"

text \<open>The Product of a component.\<close>

definition product_of :: "Target \<Rightarrow> Component \<Rightarrow> Product" where
  "product_of t c = \<lparr>p_path = Path (outfile t c), p_target = t, p_component = c\<rparr>"

text \<open>
  An offending dependency of a component: an id other than its own whose lookup gives
  a component that is not a library.
\<close>

definition offending :: "Registry \<Rightarrow> Component \<Rightarrow> string \<Rightarrow> bool" where
  "offending registry c r \<longleftrightarrow>
     r \<noteq> c_id c \<and> (case lookup registry r of None \<Rightarrow> False | Some req \<Rightarrow> ctype req \<noteq> LIB)"

text \<open>
  The sources discovered for one rule can be compiled: each lies below the component's
  directory, and the target has the tool of the rule when there is a source at all.
\<close>

definition bucket_ok :: "Env \<Rightarrow> Target \<Rightarrow> Component \<Rightarrow> string \<Rightarrow> string list \<Rightarrow> bool" where
  "bucket_ok env t c rule pats \<longleftrightarrow>
     (\<forall>src\<in>set (wilcard env c pats). under_root c src) \<and>
     (wilcard env c pats = [] \<or> map_of (tools t) rule \<noteq> None)"

text \<open>
  A resource below the component's \<open>res\<close> directory, and the path that \<open>compileRes\<close>
  computes for its copy.
\<close>

definition res_under :: "Component \<Rightarrow> string \<Rightarrow> bool" where
  "res_under c r \<longleftrightarrow>
     splitroot r = root (subpath c ''res'') \<and>
     take (length (parts (subpath c ''res''))) (parse_parts r) = parts (subpath c ''res'')"

definition res_path :: "Target \<Rightarrow> Component \<Rightarrow> string \<Rightarrow> string" where
  "res_path t c r =
     str (PurePath (root (artifactRoot t c))
            (parts (artifactRoot t c) @ [''res''] @
             drop (length (parts (subpath c ''res''))) (parse_parts r)))"

definition res_edges :: "Target \<Rightarrow> Component \<Rightarrow> string list \<Rightarrow> Stmt list" where
  "res_edges t c rs = map (\<lambda>r. Build [res_path t c r] ''cp'' [r] [] []) rs"

text \<open>Every step of \<open>link\<close> before the dependencies are collected goes through.\<close>

definition sources_ok :: "Env \<Rightarrow> Target \<Rightarrow> Component \<Rightarrow> bool" where
  "sources_ok env t c \<longleftrightarrow>
     bucket_ok env t c ''cc'' [''*.c''] \<and>
     bucket_ok env t c ''cxx'' [''*.cpp'', ''*.cc'', ''*.cxx''] \<and>
     bucket_ok env t c ''as'' [''*.s'', ''*.asm'', ''*.S''] \<and>
     (\<forall>r\<in>set (listRes env c). res_under c r)"

text \<open>The statements \<open>link\<close> writes before the terminal edge.\<close>

definition link_body :: "Env \<Rightarrow> Target \<Rightarrow> Component \<Rightarrow> Stmt list" where
  "link_body env t c =
     [Newline] @
     compile_edges t c ''cc'' (wilcard env c [''*.c'']) @
     compile_edges t c ''cxx'' (wilcard env c [''*.cpp'', ''*.cc'', ''*.cxx'']) @
     compile_edges t c ''as'' (wilcard env c [''*.s'', ''*.asm'', ''*.S'']) @
     res_edges t c (listRes env c)"

text \<open>
  The world after a build that wrote the document \<open>f\<close> and ran the executor with
  \<open>argv\<close>.
\<close>

definition ninjaPath :: "Target \<Rightarrow> string" where
  "ninjaPath t = os_path_join (builddir t) ''build.ninja''"

definition built_world :: "Target \<Rightarrow> Writer \<Rightarrow> string list \<Rightarrow> World \<Rightarrow> World" where
  "built_world t f argv world =
     world\<lparr>dirs := dirs world @ [builddir t],
           written := (ninjaPath t, f) # written world,
           execs := execs world @ [argv]\<rparr>"

section \<open>An example project\<close>

text \<open>
  The example of the specification: a target \<open>t\<close> built in \<open>build/t\<close>, a library \<open>core\<close>
  with the source \<open>a.c\<close> and an executable \<open>app\<close> with the source \<open>main.c\<close> that depends
  on \<open>core\<close>.
\<close>

definition ex_target :: Target where
  "ex_target =
     \<lparr>t_id = ''t'', builddir = ''build/t'', hashid = ''0123abcd'',
      t_props = [(''arch'', PStr ''x86-64''), (''freestanding'', PBool True),
                 (''bits'', PInt 64), (''host'', PBool False)],
      tools = [(''cc'', \<lparr>cmd = ''clang'', args = [''-O2''], files = [''/usr/bin/clang'']\<rparr>),
               (''cxx'', \<lparr>cmd = ''clang++'', args = [], files = [''/usr/bin/clang++'']\<rparr>),
               (''ar'', \<lparr>cmd = ''llvm-ar'', args = [], files = []\<rparr>),
               (''ld'', \<lparr>cmd = ''clang++'', args = [], files = []\<rparr>)]\<rparr>"

definition ex_core :: Component where
  "ex_core =
     \<lparr>c_id = ''core'', ctype = LIB, dirname = ''src/core'', subdirs = [], c_props = [],
      resolved = [''t'' \<mapsto> [''core'']]\<rparr>"

definition ex_app :: Component where
  "ex_app =
     \<lparr>c_id = ''app'', ctype = EXE, dirname = ''src/app'', subdirs = [], c_props = [],
      resolved = [''t'' \<mapsto> [''core'', ''app'']]\<rparr>"

definition ex_registry :: Registry where
  "ex_registry =
     \<lparr>iterEnabled = (\<lambda>t. [ex_core, ex_app]),
      lookup = [''core'' \<mapsto> ex_core, ''app'' \<mapsto> ex_app]\<rparr>"

definition ex_rules :: "string \<Rightarrow> Rule option" where
  "ex_rules =
     [''cc'' \<mapsto> \<lparr>rule_rule = ''-c -o $out $in -MD -MF $out.d $flags $cincs $cdefs'',
                 rule_args = [''-std=gnu2x''], rule_deps = Some ''$out.d''\<rparr>,
      ''cxx'' \<mapsto> \<lparr>rule_rule = ''-c -o $out $in -MD -MF $out.d $flags $cincs $cdefs'',
                  rule_args = [''-std=gnu++2b''], rule_deps = Some ''$out.d''\<rparr>,
      ''ar'' \<mapsto> \<lparr>rule_rule = ''$flags $out $in'', rule_args = [''rcs''], rule_deps = None\<rparr>,
      ''ld'' \<mapsto> \<lparr>rule_rule = ''-o $out $in $flags'', rule_args = [], rule_deps = None\<rparr>]"

definition ex_find :: "string list \<Rightarrow> string list \<Rightarrow> bool \<Rightarrow> string list" where
  "ex_find ds ws r =
     (if ds = [''src/core''] \<and> ws = [''*.c''] then [''src/core/a.c'']
      else if ds = [''src/app''] \<and> ws = [''*.c''] then [''src/app/main.c'']
      else [])"

definition ex_env :: Env where
  "ex_env =
     \<lparr>shell_find = ex_find,
      mkdir_ok = (\<lambda>d. True), open_ok = (\<lambda>f. True), exec_ok = (\<lambda>argv. True),
      set_iter = (\<lambda>S. filter (\<lambda>x. x \<in> S)
        [''-Isrc'', ''-D__ck_arch_x86_64__'', ''-D__ck_arch_value=x86-64'',
         ''-D__ck_freestanding__'', ''-D__ck_bits_64__'', ''-D__ck_bits_value=64'']),
      rules = ex_rules\<rparr>"

definition ex_world :: World where
  "ex_world = \<lparr>dirs = [], written = [], execs = [], environ = []\<rparr>"

text \<open>The graph document of the example.\<close>

definition ex_document :: Writer where
  "ex_document =
     [Comment ''File generated by the build system, do not edit'', Newline,
      Variable ''builddir'' ''build/t'', Variable ''hashid'' ''0123abcd'',
      Separator ''Tools'', Variable ''cincs'' ''-Isrc'',
      Variable ''cdefs''
        ''-D__ck_arch_x86_64__ -D__ck_arch_value=x86-64 -D__ck_freestanding__ -D__ck_bits_64__ -D__ck_bits_value=64'',
      Newline, RuleDecl ''cp'' ''cp $in $out'' None,
      Variable ''cc'' ''clang'', Variable ''ccflags'' ''-std=gnu2x -O2'',
      RuleDecl ''cc'' ''clang -c -o $out $in -MD -MF $out.d $ccflags $cincs $cdefs''
        (Some ''$out.d''),
      Newline,
      Variable ''cxx'' ''clang++'', Variable ''cxxflags'' ''-std=gnu++2b'',
      RuleDecl ''cxx'' ''clang++ -c -o $out $in -MD -MF $out.d $cxxflags $cincs $cdefs''
        (Some ''$out.d''),
      Newline,
      Variable ''ar'' ''llvm-ar'', Variable ''arflags'' ''rcs'',
      RuleDecl ''ar'' ''llvm-ar $arflags $out $in'' None, Newline,
      Variable ''ld'' ''clang++'', Variable ''ldflags'' [],
      RuleDecl ''ld'' ''clang++ -o $out $in $ldflags'' None, Newline,
      Separator ''Build'',
      Newline,
      Build [''build/t/core/obj/a.o''] ''cc'' [''src/core/a.c''] [] [''/usr/bin/clang''],
      Build [''build/t/core/lib/core.a''] ''ar'' [''build/t/core/obj/a.o''] [] [],
      Newline,
      Build [''build/t/app/obj/main.o''] ''cc'' [''src/app/main.c''] [] [''/usr/bin/clang''],
      Build [''build/t/app/bin/app.out''] ''ld''
        [''build/t/app/obj/main.o'', ''build/t/core/lib/core.a''] [] [],
      Build [''all''] ''phony'' [''build/t/core/lib/core.a'', ''build/t/app/bin/app.out''] [] [],
      Default ''all'']"

text \<open>
  A target with capitals, a space, a hyphen and dots in its \<open>props\<close>; a library marked
  as an include root, and a registry that holds it.
\<close>

definition ex_props_target :: Target where
  "ex_props_target =
     ex_target\<lparr>t_props := [(''Tool Chain'', PStr ''LLVM-17.0''), (''Freestanding'', PBool True),
                           (''host'', PBool False), (''bits'', PInt 64)]\<rparr>"

definition ex_headers :: Component where
  "ex_headers =
     \<lparr>c_id = ''headers'', ctype = LIB, dirname = ''src/headers'', subdirs = [],
      c_props = [(''cpp-root-include'', PBool True)], resolved = [''t'' \<mapsto> [''headers'']]\<rparr>"

definition ex_inc_registry :: Registry where
  "ex_inc_registry =
     \<lparr>iterEnabled = (\<lambda>t. [ex_core, ex_app, ex_headers]),
      lookup = [''core'' \<mapsto> ex_core, ''app'' \<mapsto> ex_app, ''headers'' \<mapsto> ex_headers]\<rparr>"

text \<open>A target with an empty build directory.\<close>

definition ex_here :: Target where
  "ex_here = ex_target\<lparr>t_id := ''here'', builddir := []\<rparr>"

text \<open>A component with an absolute id, and two targets of which one is built inside the other.\<close>

definition ex_absolute :: Component where
  "ex_absolute = ex_core\<lparr>c_id := ''/x''\<rparr>"

definition ex_outer :: Target where
  "ex_outer = ex_target\<lparr>t_id := ''outer'', builddir := ''a''\<rparr>"

definition ex_inner :: Target where
  "ex_inner = ex_target\<lparr>t_id := ''inner'', builddir := ''a/u/lib/u/lib''\<rparr>"

definition ex_nested :: Component where
  "ex_nested = ex_core\<lparr>c_id := ''u/lib/u''\<rparr>"

definition ex_u :: Component where
  "ex_u = ex_core\<lparr>c_id := ''u''\<rparr>"

text \<open>An executable \<open>tool\<close>, and \<open>app\<close> resolved to depend on it.\<close>

definition ex_tool :: Component where
  "ex_tool =
     \<lparr>c_id = ''tool'', ctype = EXE, dirname = ''src/tool'', subdirs = [], c_props = [],
      resolved = [''t'' \<mapsto> [''tool'']]\<rparr>"

definition ex_bad_app :: Component where
  "ex_bad_app = ex_app\<lparr>resolved := [''t'' \<mapsto> [''core'', ''tool'', ''app'']]\<rparr>"

definition ex_bad_registry :: Registry where
  "ex_bad_registry =
     \<lparr>iterEnabled = (\<lambda>t. [ex_core, ex_tool, ex_bad_app]),
      lookup = [''core'' \<mapsto> ex_core, ''tool'' \<mapsto> ex_tool, ''app'' \<mapsto> ex_bad_app]\<rparr>"

section \<open>Parsed paths\<close>

text \<open>
  What every path built by \<open>Path\<close>, \<open>/\<close>, \<open>relative_to\<close> and \<open>with_suffix\<close> satisfies: a
  root of at most two separators, and names that are not empty, not a dot, and hold no
  separator.
\<close>

definition wf_parts :: "string list \<Rightarrow> bool" where
  "wf_parts ps \<longleftrightarrow> (\<forall>p\<in>set ps. p \<noteq> [] \<and> p \<noteq> ''.'' \<and> CHR ''/'' \<notin> set p)"

definition wf_path :: "PurePath \<Rightarrow> bool" where
  "wf_path p \<longleftrightarrow> (root p = [] \<or> root p = ''/'' \<or> root p = ''//'') \<and> wf_parts (parts p)"

section \<open>What \<open>link\<close> writes\<close>

text \<open>An edge with one output and one explicit input, bound to a given rule.\<close>

definition compile_edge :: "string \<Rightarrow> Stmt \<Rightarrow> bool" where
  "compile_edge rule s \<longleftrightarrow> (\<exists>obj src oo. s = Build [obj] rule [src] [] oo)"

text \<open>
  The objects, the resource outputs and the terminal edge of a component whose sources
  compile.
\<close>

definition link_objs :: "Env \<Rightarrow> Target \<Rightarrow> Component \<Rightarrow> string list" where
  "link_objs env t c =
     map (object_path t c)
       (wilcard env c [''*.c''] @ wilcard env c [''*.cpp'', ''*.cc'', ''*.cxx''] @
        wilcard env c [''*.s'', ''*.asm'', ''*.S''])"

definition link_res :: "Env \<Rightarrow> Target \<Rightarrow> Component \<Rightarrow> string list" where
  "link_res env t c = map (res_path t c) (listRes env c)"

definition terminal :: "Env \<Rightarrow> Target \<Rightarrow> Component \<Rightarrow> string list \<Rightarrow> Stmt" where
  "terminal env t c libs =
     (if ctype c = LIB
      then Build [outfile t c] ''ar'' (link_objs env t c) (link_res env t c) []
      else Build [outfile t c] ''ld'' (link_objs env t c @ libs) (link_res env t c) [])"

text \<open>
  The conditions under which \<open>link\<close> of a component, and \<open>gen\<close> of a whole target, go
  through: the sources compile, every dependency is found and none is offending, and
  the rule table has every tool of the target.
\<close>

definition link_ready :: "Env \<Rightarrow> Registry \<Rightarrow> Target \<Rightarrow> Component \<Rightarrow> bool" where
  "link_ready env reg t c \<longleftrightarrow>
     sources_ok env t c \<and>
     (case resolved c (t_id t) of
        None \<Rightarrow> False
      | Some rs \<Rightarrow> \<forall>x\<in>set rs. lookup reg x \<noteq> None \<and> \<not> offending reg c x)"

definition gen_ready :: "Env \<Rightarrow> Target \<Rightarrow> Registry \<Rightarrow> bool" where
  "gen_ready env t reg \<longleftrightarrow>
     (\<forall>i\<in>set (map fst (tools t)). rules env i \<noteq> None) \<and>
     (\<forall>c\<in>set (iterEnabled reg t). link_ready env reg t c)"

section \<open>Facts about strings and paths\<close>

lemma split_nonempty: "split sep s \<noteq> []"
  by (induction s) (auto split: list.splits)

lemma split_no_sep: "sep \<notin> set s \<Longrightarrow> split sep s = [s]"
  by (induction s) auto

lemma split_append: "split sep (a @ sep # b) = split sep a @ split sep b"
proof (induction a)
  case Nil
  show ?case by simp
next
  case (Cons c a)
  obtain p ps where ps: "split sep a = p # ps"
    using split_nonempty [of sep a] by (cases "split sep a") auto
  with Cons show ?case by simp
qed

lemma split_elems: "p \<in> set (split sep s) \<Longrightarrow> sep \<notin> set p"
proof (induction s arbitrary: p)
  case Nil
  then show ?case by simp
next
  case (Cons c s)
  obtain q qs where qs: "split sep s = q # qs"
    using split_nonempty [of sep s] by (cases "split sep s") auto
  with Cons show ?case by (auto split: if_splits)
qed

lemma split_join:
  "ps \<noteq> [] \<Longrightarrow> \<forall>p\<in>set ps. sep \<notin> set p \<Longrightarrow> split sep (join [sep] ps) = ps"
proof (induction "[sep]" ps rule: join.induct)
  case 1
  then show ?case by simp
next
  case (2 x)
  then show ?case by (simp add: split_no_sep)
next
  case (3 x y ys)
  then show ?case by (simp add: split_append split_no_sep)
qed

lemma parse_parts_wf: "wf_parts (parse_parts s)"
  by (auto simp: wf_parts_def parse_parts_def dest: split_elems)

lemma parse_parts_append:
  "parse_parts (a @ CHR ''/'' # b) = parse_parts a @ parse_parts b"
  by (simp add: parse_parts_def split_append)

lemma parse_parts_join: "wf_parts ps \<Longrightarrow> parse_parts (join ''/'' ps) = ps"
proof (cases "ps = []")
  case True
  then show ?thesis by (simp add: parse_parts_def)
next
  case False
  assume "wf_parts ps"
  then have "\<forall>p\<in>set ps. CHR ''/'' \<notin> set p" and f: "filter (\<lambda>x. x \<noteq> [] \<and> x \<noteq> ''.'') ps = ps"
    by (auto simp: wf_parts_def intro: filter_True)
  with False show ?thesis by (simp add: parse_parts_def split_join)
qed

lemma splitroot_cases: "splitroot s = [] \<or> splitroot s = ''/'' \<or> splitroot s = ''//''"
  by (simp add: splitroot_def)

lemma Path_wf: "wf_path (Path s)"
  using splitroot_cases [of s] by (simp add: wf_path_def Path_def parse_parts_wf)

lemma joinpath_wf: "wf_path p \<Longrightarrow> wf_path q \<Longrightarrow> wf_path (joinpath p q)"
  by (auto simp: wf_path_def joinpath_def wf_parts_def)

lemma join_hd: "ps \<noteq> [] \<Longrightarrow> wf_parts ps \<Longrightarrow> join ''/'' ps \<noteq> [] \<and> hd (join ''/'' ps) \<noteq> CHR ''/''"
proof -
  assume ne: "ps \<noteq> []" and wf: "wf_parts ps"
  then obtain a as where ps: "ps = a # as" by (cases ps) auto
  with wf have a: "a \<noteq> []" "CHR ''/'' \<notin> set a" by (auto simp: wf_parts_def)
  then have "hd a \<noteq> CHR ''/''" by (cases a) auto
  with a ps show ?thesis by (cases as) auto
qed

lemma takeWhile_slash_join:
  "wf_parts ps \<Longrightarrow> takeWhile (\<lambda>c. c = CHR ''/'') (join ''/'' ps) = []"
proof (cases "ps = []")
  case True
  then show ?thesis by simp
next
  case False
  assume "wf_parts ps"
  with False have "join ''/'' ps \<noteq> [] \<and> hd (join ''/'' ps) \<noteq> CHR ''/''" by (rule join_hd)
  then show ?thesis by (cases "join ''/'' ps") auto
qed

lemma startswith_join: "wf_parts ps \<Longrightarrow> \<not> startswith (join ''/'' ps) ''/''"
proof (cases "ps = []")
  case True
  then show ?thesis by (simp add: startswith_def)
next
  case False
  assume "wf_parts ps"
  with False have "join ''/'' ps \<noteq> [] \<and> hd (join ''/'' ps) \<noteq> CHR ''/''" by (rule join_hd)
  then show ?thesis by (cases "join ''/'' ps") (auto simp: startswith_def)
qed

lemma parse_parts_slash: "parse_parts (CHR ''/'' # s) = parse_parts s"
  by (simp add: parse_parts_def)

lemma Path_str: "wf_path p \<Longrightarrow> Path (str p) = p"
proof -
  assume wf: "wf_path p"
  obtain r ps where p: "p = PurePath r ps" by (cases p)
  with wf have ps: "wf_parts ps" and r: "r = [] \<or> r = ''/'' \<or> r = ''//''"
    by (auto simp: wf_path_def)
  note tw = takeWhile_slash_join [OF ps] and sw = startswith_join [OF ps]
    and pj = parse_parts_join [OF ps]
  from r show ?thesis
  proof (elim disjE)
    assume "r = []"
    then show ?thesis
      using sw pj p
      by (cases "ps = []") (simp_all add: str_def Path_def splitroot_def parse_parts_def startswith_def)
  next
    assume "r = ''/''"
    then show ?thesis
      using tw pj p
      by (simp add: str_def Path_def splitroot_def parse_parts_slash startswith_def)
  next
    assume "r = ''//''"
    then show ?thesis
      using tw pj p
      by (simp add: str_def Path_def splitroot_def parse_parts_slash startswith_def)
  qed
qed

lemma str_inj: "wf_path p \<Longrightarrow> wf_path q \<Longrightarrow> str p = str q \<Longrightarrow> p = q"
  by (metis Path_str)

lemma str_Path_str: "wf_path p \<Longrightarrow> str (Path (str p)) = str p"
  by (simp add: Path_str)

lemma buildpath_wf: "wf_path (buildpath t c p)"
  by (simp add: buildpath_def joinpath_wf Path_wf)

lemma outfile_str_Path: "str (Path (outfile t c)) = outfile t c"
  by (simp add: outfile_def str_Path_str buildpath_wf)

section \<open>Flag aggregation: the defines\<close>






lemma replace_Nil: "replace old new [] = []"
  by (subst replace.simps) simp

lemma replace_char_Cons:
  "replace [a] [b] (c # cs) = (if c = a then b else c) # replace [a] [b] cs"
  by (subst replace.simps) (simp add: startswith_def)

lemma replace_char: "replace [a] [b] s = map (\<lambda>c. if c = a then b else c) s"
  by (induction s) (simp_all add: replace_Nil replace_char_Cons)


lemma length_sanatize: "length (sanatize s) = length s"
  by (simp add: sanatize_def replace_char lower_def)





text \<open>
  The flags of a target with the entries \<open>Tool Chain = LLVM-17.0\<close>, \<open>Freestanding = True\<close>,
  \<open>host = False\<close> and \<open>bits = 64\<close>, first run through the program, then through the
  theorem.
\<close>

lemma ex_cdefs:
  "aggregateCdefs ex_props_target =
     {''-D__ck_tool_chain_llvm_17_0__'', ''-D__ck_tool_chain_value=LLVM-17.0'',
      ''-D__ck_freestanding__'', ''-D__ck_bits_64__'', ''-D__ck_bits_value=64''} \<and>
   sanatize ''Tool Chain-1.X'' = ''tool_chain_1_x''"
  by code_simp


section \<open>Flag aggregation: the include paths\<close>

lemma parent_dir: "str (parent (Path d)) = spec_parent_dir d"
  by (simp add: parent_def Path_def spec_parent_dir_def)

lemma cinc_step_dirs: "cinc_step c res = include_dirs c \<union> res"
  by (simp add: cinc_step_def include_dirs_def parent_dir)

lemma fold_cinc_step: "fold cinc_step cs res = (\<Union>c\<in>set cs. include_dirs c) \<union> res"
  by (induction cs arbitrary: res) (auto simp: cinc_step_dirs)

text \<open>The parent of a directory \<open><d>/<name>\<close> is \<open><d>\<close>.\<close>

lemma parent_Path_child:
  assumes "\<exists>ch\<in>set d. ch \<noteq> CHR ''/''"
    and "CHR ''/'' \<notin> set name" and "name \<noteq> []" and "name \<noteq> ''.''"
  shows "parent (Path (d @ ''/'' @ name)) = Path d"
proof -
  from assms(1) have tw: "takeWhile (\<lambda>c. c = CHR ''/'') (d @ ''/'' @ name) =
      takeWhile (\<lambda>c. c = CHR ''/'') d"
    by (auto intro: takeWhile_append1)
  from assms(1) have "d \<noteq> []" by auto
  then have "startswith (d @ ''/'' @ name) ''/'' = startswith d ''/''"
    by (cases d) (auto simp: startswith_def)
  with tw have r: "splitroot (d @ ''/'' @ name) = splitroot d" by (simp add: splitroot_def)
  have "parse_parts (d @ CHR ''/'' # name) = parse_parts d @ [name]"
    using assms(2-4) by (simp add: parse_parts_append) (simp add: parse_parts_def split_no_sep)
  with r show ?thesis by (simp add: parent_def Path_def)
qed

text \<open>
  C9. \<open>aggregateCincs\<close> returns the set of the flags \<open>-I<dir>\<close> for exactly the directories
  contributed by the components enabled under the target: the own directory of a
  component marked as an include root, else the parent of the directory of a library,
  and nothing for any other component. The parent of a directory \<open><d>/<name>\<close> is \<open><d>\<close>, in
  the form in which paths are printed. The result is a set, so it holds no duplicate; the
  function has no failing branch; with no enabled component the set is empty.
\<close>

theorem aggregateCincs_paths:
  "aggregateCincs target registry =
     (\<lambda>d. ''-I'' @ d) ` (\<Union>c\<in>set (iterEnabled registry target). include_dirs c) \<and>
   aggregateCincs target (registry\<lparr>iterEnabled := \<lambda>t. []\<rparr>) = {} \<and>
   ((\<exists>ch\<in>set d. ch \<noteq> CHR ''/'') \<and> CHR ''/'' \<notin> set name \<and> name \<noteq> [] \<and> name \<noteq> ''.'' \<longrightarrow>
      spec_parent_dir (d @ ''/'' @ name) = str (Path d))"
proof -
  have "spec_parent_dir (d @ ''/'' @ name) = str (Path d)"
    if "\<exists>ch\<in>set d. ch \<noteq> CHR ''/''" and "CHR ''/'' \<notin> set name" and "name \<noteq> []"
      and "name \<noteq> ''.''"
    using parent_Path_child [OF that] parent_dir [of "d @ ''/'' @ name"] by simp
  then show ?thesis by (simp add: aggregateCincs_def fold_cinc_step)
qed

text \<open>
  The include paths of the example project with a third component, a library marked as
  an include root: the two libraries give the parent \<open>src\<close> of \<open>src/core\<close> and the own
  directory \<open>src/headers\<close>, the executable gives nothing. First run through the program,
  then through the theorem.
\<close>

lemma ex_cincs:
  "aggregateCincs ex_target ex_inc_registry = {''-Isrc'', ''-Isrc/headers''} \<and>
   str (parent (Path ''src/core'')) = ''src'' \<and>
   str (parent (Path ''/opt//sdk/libc/'')) = ''/opt/sdk'' \<and>
   str (parent (Path ''core'')) = ''.''"
  by code_simp

theorem aggregateCincs_paths_witness:
  "aggregateCincs ex_target ex_inc_registry = {''-Isrc'', ''-Isrc/headers''} \<and>
   spec_parent_dir ''src/core'' = ''src''"
proof -
  have u: "(\<lambda>d. ''-I'' @ d) ` (\<Union>c\<in>set (iterEnabled ex_inc_registry ex_target). include_dirs c) =
      {''-Isrc'', ''-Isrc/headers''}"
    by code_simp
  have p: "str (Path ''src'') = ''src''" by code_simp
  from aggregateCincs_paths [of ex_target ex_inc_registry "''src''" "''core''"]
  have "aggregateCincs ex_target ex_inc_registry =
      (\<lambda>d. ''-I'' @ d) ` (\<Union>c\<in>set (iterEnabled ex_inc_registry ex_target). include_dirs c)"
    and "spec_parent_dir (''src'' @ ''/'' @ ''core'') = str (Path ''src'')"
    by simp_all
  with u p show ?thesis by simp
qed

section \<open>The final artifact path\<close>

lemma splitroot_append:
  assumes "\<exists>ch\<in>set b. ch \<noteq> CHR ''/''"
  shows "splitroot (b @ s) = splitroot b"
proof -
  from assms have tw: "takeWhile (\<lambda>c. c = CHR ''/'') (b @ s) = takeWhile (\<lambda>c. c = CHR ''/'') b"
    by (auto intro: takeWhile_append1)
  from assms have "b \<noteq> []" by auto
  then have "startswith (b @ s) ''/'' = startswith b ''/''"
    by (cases b) (auto simp: startswith_def)
  with tw show ?thesis by (simp add: splitroot_def)
qed

lemma Path_text:
  assumes "\<exists>ch\<in>set b. ch \<noteq> CHR ''/''"
  shows "Path (b @ ''/'' @ p) = PurePath (splitroot b) (parse_parts b @ parse_parts p)"
  using splitroot_append [OF assms] by (simp add: Path_def parse_parts_append)

lemma Path_relative: "\<not> startswith p ''/'' \<Longrightarrow> Path p = PurePath [] (parse_parts p)"
  by (simp add: Path_def splitroot_def)

lemma joinpath_relative:
  "\<not> startswith p ''/'' \<Longrightarrow> joinpath q (Path p) = PurePath (root q) (parts q @ parse_parts p)"
  by (simp add: Path_relative joinpath_def)

lemma buildpath_artifact:
  "\<not> startswith p ''/'' \<Longrightarrow>
     buildpath t c p = PurePath (root (artifactRoot t c)) (parts (artifactRoot t c) @ parse_parts p)"
  by (simp add: buildpath_def artifactRoot_def joinpath_relative)

lemma startswith_append: "\<not> startswith i ''/'' \<Longrightarrow> \<not> startswith (i @ CHR ''.'' # e) ''/''"
  by (cases i) (auto simp: startswith_def)

lemma parse_parts_dir: "parse_parts (''lib/'' @ x) = ''lib'' # parse_parts x"
  "parse_parts (''bin/'' @ x) = ''bin'' # parse_parts x"
  using parse_parts_append [of "''lib''" x] parse_parts_append [of "''bin''" x]
  by (simp_all add: parse_parts_def)

lemma outfile_artifact:
  assumes "\<not> startswith (c_id c) ''/''"
  shows "outfile t c = str (spec_finalArtifact t c)"
proof -
  have d: "\<not> startswith (out_dir c) ''/''" "parse_parts (out_dir c) = [out_dir c]"
    by (simp_all add: out_dir_def startswith_def parse_parts_def)
  have n: "\<not> startswith (c_id c @ out_ext c) ''/''"
    using startswith_append [OF assms] by (simp add: out_ext_def)
  have s: "spec_finalArtifact t c =
     PurePath (root (artifactRoot t c))
       (parts (artifactRoot t c) @ out_dir c # parse_parts (c_id c @ out_ext c))"
    by (simp add: spec_finalArtifact_def joinpath_relative [OF d(1)] joinpath_relative [OF n] d(2))
  have l: "\<not> startswith (''lib/'' @ c_id c @ ''.a'') ''/''"
    and b: "\<not> startswith (''bin/'' @ c_id c @ ''.out'') ''/''"
    by (simp_all add: startswith_def)
  show ?thesis
    using buildpath_artifact [OF l, of t c] buildpath_artifact [OF b, of t c] parse_parts_dir
    by (simp add: outfile_def s out_dir_def out_ext_def)
qed

lemma artifactRoot_text:
  assumes "\<exists>ch\<in>set (builddir t). ch \<noteq> CHR ''/''" and "\<not> startswith (c_id c) ''/''"
  shows "artifactRoot t c =
     PurePath (splitroot (builddir t)) (parse_parts (builddir t) @ parse_parts (c_id c))"
  using joinpath_relative [OF assms(2), of "Path (builddir t)"]
  by (simp add: artifactRoot_def) (simp add: Path_def)

text \<open>
  C6. For a component whose id does not begin with a separator, the final artifact
  path is \<open><root>/lib/<id>.a\<close> for a library and \<open><root>/bin/<id>.out\<close> for any other kind,
  with \<open><root> = <builddir>/<id>\<close>; when moreover the build directory holds a character
  other than the separator, it is the text \<open><builddir>/<id>/lib/<id>.a\<close> (or
  \<open><builddir>/<id>/bin/<id>.out\<close>) in the normal form in which paths are printed.
\<close>

theorem outfile_normal_form:
  assumes "\<not> startswith (c_id c) ''/''"
  shows "outfile t c = str (spec_finalArtifact t c) \<and>
         ((\<exists>ch\<in>set (builddir t). ch \<noteq> CHR ''/'') \<longrightarrow>
            outfile t c = str (Path (spec_finalArtifactPath t c)))"
proof
  show a: "outfile t c = str (spec_finalArtifact t c)" using assms by (rule outfile_artifact)
  show "(\<exists>ch\<in>set (builddir t). ch \<noteq> CHR ''/'') \<longrightarrow>
            outfile t c = str (Path (spec_finalArtifactPath t c))"
  proof
    assume b: "\<exists>ch\<in>set (builddir t). ch \<noteq> CHR ''/''"
    have l: "\<not> startswith (''lib/'' @ c_id c @ ''.a'') ''/''"
      and n: "\<not> startswith (''bin/'' @ c_id c @ ''.out'') ''/''"
      by (simp_all add: startswith_def)
    have L: "buildpath t c (''lib/'' @ c_id c @ ''.a'') =
             Path (builddir t @ ''/'' @ c_id c @ ''/lib/'' @ c_id c @ ''.a'')"
      using buildpath_artifact [OF l, of t c] artifactRoot_text [OF b assms]
        Path_text [OF b, of "c_id c @ ''/lib/'' @ c_id c @ ''.a''"]
        parse_parts_append [of "c_id c" "''lib/'' @ c_id c @ ''.a''"]
      by simp
    have B: "buildpath t c (''bin/'' @ c_id c @ ''.out'') =
             Path (builddir t @ ''/'' @ c_id c @ ''/bin/'' @ c_id c @ ''.out'')"
      using buildpath_artifact [OF n, of t c] artifactRoot_text [OF b assms]
        Path_text [OF b, of "c_id c @ ''/bin/'' @ c_id c @ ''.out''"]
        parse_parts_append [of "c_id c" "''bin/'' @ c_id c @ ''.out''"]
      by simp
    show "outfile t c = str (Path (spec_finalArtifactPath t c))"
      by (simp only: outfile_def spec_finalArtifactPath_def L B if_distrib [of str]
          if_distrib [of Path])
  qed
qed

lemma ex_outfile_core: "outfile ex_target ex_core = ''build/t/core/lib/core.a''"
  by code_simp

lemma ex_outfile_app: "outfile ex_target ex_app = ''build/t/app/bin/app.out''"
  by code_simp

lemma ex_ninjaPath: "ninjaPath ex_target = ''build/t/build.ninja''"
  by code_simp

text \<open>The example library: the path is the text itself.\<close>

theorem outfile_normal_form_witness:
  "\<not> startswith (c_id ex_core) ''/'' \<and> outfile ex_target ex_core = ''build/t/core/lib/core.a'' \<and>
   spec_finalArtifactPath ex_target ex_core = ''build/t/core/lib/core.a''"
proof -
  have b: "\<exists>ch\<in>set (builddir ex_target). ch \<noteq> CHR ''/''" by (simp add: ex_target_def)
  have i: "\<not> startswith (c_id ex_core) ''/''" by (simp add: ex_core_def startswith_def)
  have s: "spec_finalArtifactPath ex_target ex_core = ''build/t/core/lib/core.a''"
    by (simp add: spec_finalArtifactPath_def ex_target_def ex_core_def)
  have n: "str (Path ''build/t/core/lib/core.a'') = ''build/t/core/lib/core.a''" by code_simp
  from outfile_normal_form [OF i, of ex_target] b
  have "outfile ex_target ex_core = str (Path (spec_finalArtifactPath ex_target ex_core))"
    by blast
  with i s n show ?thesis by simp
qed

text \<open>
  A component with the id \<open>/x\<close>: the id replaces the build directory, and the path is
  neither \<open><root>/lib/<id>.a\<close> nor the text \<open><builddir>/<id>/lib/<id>.a\<close>, normalised or
  not.
\<close>

theorem outfile_absolute_id:
  "outfile ex_target ex_absolute = ''/x/lib/x.a'' \<and>
   str (spec_finalArtifact ex_target ex_absolute) = ''/x.a'' \<and>
   spec_finalArtifactPath ex_target ex_absolute = ''build/t//x/lib//x.a'' \<and>
   str (Path (spec_finalArtifactPath ex_target ex_absolute)) = ''build/t/x/lib/x.a''"
  by code_simp

section \<open>Distinct final artifact paths\<close>

lemma no_slash_relative: "CHR ''/'' \<notin> set s \<Longrightarrow> \<not> startswith s ''/''"
  by (cases s) (auto simp: startswith_def)

lemma parse_parts_name:
  "CHR ''/'' \<notin> set s \<Longrightarrow> s \<noteq> [] \<Longrightarrow> s \<noteq> ''.'' \<Longrightarrow> parse_parts s = [s]"
  by (simp add: parse_parts_def split_no_sep)

lemma buildpath_relative:
  assumes "\<not> startswith (c_id c) ''/''" and "\<not> startswith p ''/''"
  shows "buildpath t c p =
     PurePath (splitroot (builddir t)) (parse_parts (builddir t) @ parse_parts (c_id c) @ parse_parts p)"
  using assms by (simp add: buildpath_def joinpath_def Path_def splitroot_def)

lemma buildpath_lib:
  assumes "CHR ''/'' \<notin> set (c_id c)"
  shows "buildpath t c (''lib/'' @ c_id c @ ''.a'') =
     PurePath (splitroot (builddir t))
       (parse_parts (builddir t) @ parse_parts (c_id c) @ [''lib'', c_id c @ ''.a''])"
proof -
  have "parse_parts (''lib'' @ CHR ''/'' # (c_id c @ ''.a'')) = [''lib'', c_id c @ ''.a'']"
    using assms parse_parts_name [of "c_id c @ ''.a''"] parse_parts_name [of "''lib''"]
    by (simp only: parse_parts_append) auto
  moreover have "\<not> startswith (''lib/'' @ c_id c @ ''.a'') ''/''"
    by (simp add: startswith_def)
  ultimately show ?thesis
    using buildpath_relative [OF no_slash_relative [OF assms], of "''lib/'' @ c_id c @ ''.a''" t]
    by simp
qed

lemma buildpath_bin:
  assumes "CHR ''/'' \<notin> set (c_id c)"
  shows "buildpath t c (''bin/'' @ c_id c @ ''.out'') =
     PurePath (splitroot (builddir t))
       (parse_parts (builddir t) @ parse_parts (c_id c) @ [''bin'', c_id c @ ''.out''])"
proof -
  have "parse_parts (''bin'' @ CHR ''/'' # (c_id c @ ''.out'')) = [''bin'', c_id c @ ''.out'']"
    using assms parse_parts_name [of "c_id c @ ''.out''"] parse_parts_name [of "''bin''"]
    by (simp only: parse_parts_append) auto
  moreover have "\<not> startswith (''bin/'' @ c_id c @ ''.out'') ''/''"
    by (simp add: startswith_def)
  ultimately show ?thesis
    using buildpath_relative [OF no_slash_relative [OF assms], of "''bin/'' @ c_id c @ ''.out''" t]
    by simp
qed

lemma outfile_parts:
  assumes "CHR ''/'' \<notin> set (c_id c)"
  shows "\<exists>p. wf_path p \<and> outfile t c = str p \<and> root p = splitroot (builddir t) \<and>
     parts p = parse_parts (builddir t) @ parse_parts (c_id c) @ [out_dir c, c_id c @ out_ext c]"
proof (cases "ctype c = LIB")
  case True
  then show ?thesis
    using buildpath_lib [OF assms, of t] buildpath_wf [of t c "''lib/'' @ c_id c @ ''.a''"]
    by (intro exI [of _ "buildpath t c (''lib/'' @ c_id c @ ''.a'')"])
       (simp add: outfile_def out_dir_def out_ext_def)
next
  case False
  then show ?thesis
    using buildpath_bin [OF assms, of t] buildpath_wf [of t c "''bin/'' @ c_id c @ ''.out''"]
    by (intro exI [of _ "buildpath t c (''bin/'' @ c_id c @ ''.out'')"])
       (simp add: outfile_def out_dir_def out_ext_def)
qed

lemma outfile_eq_ids:
  assumes s1: "CHR ''/'' \<notin> set (c_id c1)" and s2: "CHR ''/'' \<notin> set (c_id c2)"
    and eq: "outfile t1 c1 = outfile t2 c2"
  shows "c_id c1 = c_id c2 \<and> Path (builddir t1) = Path (builddir t2)"
proof -
  obtain p1 where p1: "wf_path p1" "outfile t1 c1 = str p1" "root p1 = splitroot (builddir t1)"
    "parts p1 = parse_parts (builddir t1) @ parse_parts (c_id c1) @ [out_dir c1, c_id c1 @ out_ext c1]"
    using outfile_parts [OF s1] by blast
  obtain p2 where p2: "wf_path p2" "outfile t2 c2 = str p2" "root p2 = splitroot (builddir t2)"
    "parts p2 = parse_parts (builddir t2) @ parse_parts (c_id c2) @ [out_dir c2, c_id c2 @ out_ext c2]"
    using outfile_parts [OF s2] by blast
  from eq p1 p2 have "p1 = p2" by (simp add: str_inj)
  with p1 p2 have r: "splitroot (builddir t1) = splitroot (builddir t2)"
    and ps: "(parse_parts (builddir t1) @ parse_parts (c_id c1)) @ [out_dir c1, c_id c1 @ out_ext c1] =
             (parse_parts (builddir t2) @ parse_parts (c_id c2)) @ [out_dir c2, c_id c2 @ out_ext c2]"
    by simp_all
  from ps have pre: "parse_parts (builddir t1) @ parse_parts (c_id c1) =
                     parse_parts (builddir t2) @ parse_parts (c_id c2)"
    and d: "out_dir c1 = out_dir c2" and n: "c_id c1 @ out_ext c1 = c_id c2 @ out_ext c2"
    by simp_all
  from d have "out_ext c1 = out_ext c2"
    by (auto simp: out_dir_def out_ext_def split: if_splits)
  with n have i: "c_id c1 = c_id c2" by simp
  with pre have "parse_parts (builddir t1) = parse_parts (builddir t2)" by simp
  with r i show ?thesis by (simp add: Path_def)
qed

text \<open>
  C5. For two distinct pairs of a target and a component whose ids hold no separator:
  if the components of one target have distinct ids, and distinct targets have build
  directories that are distinct as paths, then the two final artifact paths differ.
\<close>

theorem outfile_distinct:
  assumes "CHR ''/'' \<notin> set (c_id c1)" and "CHR ''/'' \<notin> set (c_id c2)"
    and "(t1, c1) \<noteq> (t2, c2)"
    and "t1 = t2 \<Longrightarrow> c1 \<noteq> c2 \<Longrightarrow> c_id c1 \<noteq> c_id c2"
    and "t1 \<noteq> t2 \<Longrightarrow> Path (builddir t1) \<noteq> Path (builddir t2)"
  shows "outfile t1 c1 \<noteq> outfile t2 c2"
  using assms outfile_eq_ids [of c1 c2 t1 t2] by auto

text \<open>
  The library and the executable of the example in one target, and the library in two
  targets.
\<close>

theorem outfile_distinct_witness:
  "(ex_target, ex_core) \<noteq> (ex_target, ex_app) \<and> c_id ex_core \<noteq> c_id ex_app \<and>
   outfile ex_target ex_core \<noteq> outfile ex_target ex_app \<and>
   (ex_outer, ex_core) \<noteq> (ex_inner, ex_core) \<and>
   Path (builddir ex_outer) \<noteq> Path (builddir ex_inner) \<and>
   outfile ex_outer ex_core \<noteq> outfile ex_inner ex_core"
proof -
  have s1: "CHR ''/'' \<notin> set (c_id ex_core)" and s2: "CHR ''/'' \<notin> set (c_id ex_app)"
    and i: "c_id ex_core \<noteq> c_id ex_app"
    by (simp_all add: ex_core_def ex_app_def)
  from i have d: "(ex_target, ex_core) \<noteq> (ex_target, ex_app)" by auto
  have p: "Path (builddir ex_outer) \<noteq> Path (builddir ex_inner)" by code_simp
  then have t: "ex_outer \<noteq> ex_inner" by auto
  then have e: "(ex_outer, ex_core) \<noteq> (ex_inner, ex_core)" by simp
  show ?thesis
    using outfile_distinct [OF s1 s2 d] outfile_distinct [OF s1 s1 e] i d p t e by simp
qed

text \<open>
  Ids with separators: the component \<open>u/lib/u\<close> of the target built in \<open>a\<close> and the
  component \<open>u\<close> of the target built in \<open>a/u/lib/u/lib\<close> have the same final artifact,
  \<open>a/u/lib/u/lib/u/lib/u.a\<close>.
\<close>

theorem outfile_collision:
  "outfile ex_outer ex_nested = ''a/u/lib/u/lib/u/lib/u.a'' \<and>
   outfile ex_inner ex_u = ''a/u/lib/u/lib/u/lib/u.a'' \<and>
   t_id ex_outer \<noteq> t_id ex_inner \<and> builddir ex_outer \<noteq> builddir ex_inner \<and>
   Path (builddir ex_outer) \<noteq> Path (builddir ex_inner) \<and> c_id ex_nested \<noteq> c_id ex_u"
  by code_simp

section \<open>Object paths\<close>

lemma stem_extension:
  assumes "base \<noteq> []" and "ext \<noteq> []" and "CHR ''.'' \<notin> set ext"
  shows "stem (base @ ''.'' @ ext) = base"
proof -
  have tw: "takeWhile (\<lambda>c. c \<noteq> CHR ''.'') (rev (base @ ''.'' @ ext)) = rev ext"
    using assms(3) by (auto simp: takeWhile_append2 takeWhile_tail)
  have "rfind_dot (base @ ''.'' @ ext) = Some (length base)"
    unfolding rfind_dot_def tw by (simp add: Let_def)
  with assms(1,2) have "name_suffix (base @ ''.'' @ ext) = ''.'' @ ext"
    by (simp add: name_suffix_def)
  then show ?thesis by (simp add: stem_def)
qed

lemma with_suffix_stem:
  "ps \<noteq> [] \<Longrightarrow> with_suffix (PurePath r ps) sfx = Inr (PurePath r (butlast ps @ [stem (last ps) @ sfx]))"
  by (simp add: with_suffix_def stem_def Let_def)

lemma buildpath_obj:
  "buildpath t c ''obj'' = PurePath (root (artifactRoot t c)) (parts (artifactRoot t c) @ [''obj''])"
  by (simp add: buildpath_def artifactRoot_def joinpath_def Path_def splitroot_def
      parse_parts_def startswith_def)

lemma compile_dest_iff:
  "compile_dest t c src = Inr d \<longleftrightarrow>
     under_root c src \<and>
     d = PurePath (root (artifactRoot t c))
           (parts (artifactRoot t c) @ [''obj''] @ butlast (rel_parts c src) @
            [stem (last (rel_parts c src)) @ ''.o''])"
proof (cases "under_root c src")
  case True
  then have rel: "relative_to (Path src) (Path (dirname c)) = Inr (PurePath [] (rel_parts c src))"
    and ne: "rel_parts c src \<noteq> []"
    by (simp_all add: under_root_def relative_to_def Path_def rel_parts_def)
  show ?thesis
    using True
    by (auto simp: compile_dest_def rel with_suffix_stem [OF ne] buildpath_obj joinpath_def)
next
  case False
  then show ?thesis
    by (auto simp: compile_dest_def under_root_def relative_to_def Path_def rel_parts_def
        with_suffix_def split: sum.splits if_splits)
qed

lemma compile_dest_str:
  "under_root c src \<Longrightarrow> \<exists>d. compile_dest t c src = Inr d \<and> str d = object_path t c src"
  by (simp add: compile_dest_iff object_path_def)

lemma artifactRoot_wf: "wf_path (artifactRoot t c)"
  by (simp add: artifactRoot_def joinpath_wf Path_wf)

lemma stem_wf:
  assumes "name \<noteq> []" and "CHR ''/'' \<notin> set name"
  shows "stem name @ ''.o'' \<noteq> [] \<and> stem name @ ''.o'' \<noteq> ''.'' \<and> CHR ''/'' \<notin> set (stem name @ ''.o'')"
proof -
  have "set (stem name) \<subseteq> set name" by (simp add: stem_def set_take_subset)
  with assms show ?thesis by auto
qed

lemma rel_parts_wf: "wf_parts (rel_parts c src)"
  using parse_parts_wf [of src]
  by (auto simp: wf_parts_def rel_parts_def dest: in_set_dropD)

lemma object_parts_wf:
  assumes "rel_parts c src \<noteq> []"
  shows "wf_parts (butlast (rel_parts c src) @ [stem (last (rel_parts c src)) @ ''.o''])"
proof -
  from assms have "last (rel_parts c src) \<in> set (rel_parts c src)" by simp
  with rel_parts_wf [of c src]
  have "last (rel_parts c src) \<noteq> []" "CHR ''/'' \<notin> set (last (rel_parts c src))"
    by (auto simp: wf_parts_def)
  then have "stem (last (rel_parts c src)) @ ''.o'' \<noteq> [] \<and>
    stem (last (rel_parts c src)) @ ''.o'' \<noteq> ''.'' \<and>
    CHR ''/'' \<notin> set (stem (last (rel_parts c src)) @ ''.o'')"
    by (rule stem_wf)
  moreover have "\<forall>p\<in>set (butlast (rel_parts c src)). p \<noteq> [] \<and> p \<noteq> ''.'' \<and> CHR ''/'' \<notin> set p"
    using rel_parts_wf [of c src] by (auto simp: wf_parts_def dest: in_set_butlastD)
  ultimately show ?thesis by (auto simp: wf_parts_def)
qed

lemma compile_dest_wf: "compile_dest t c src = Inr d \<Longrightarrow> wf_path d"
  using artifactRoot_wf [of t c] object_parts_wf [of c src]
  by (auto simp: compile_dest_iff under_root_def wf_path_def wf_parts_def)

text \<open>
  C8. Two sources of a component that \<open>compile\<close> accepts get the same object path
  exactly when their paths relative to the component's directory agree up to the
  extension of the file name; sources whose relative paths differ in more than that
  extension get distinct object paths.
\<close>

theorem object_paths_collide_iff:
  assumes "compile_dest t c src1 = Inr d1" and "compile_dest t c src2 = Inr d2"
  shows "str d1 = str d2 \<longleftrightarrow>
     butlast (rel_parts c src1) = butlast (rel_parts c src2) \<and>
     stem (last (rel_parts c src1)) = stem (last (rel_parts c src2))"
proof -
  have "str d1 = str d2 \<longleftrightarrow> d1 = d2"
    using compile_dest_wf [OF assms(1)] compile_dest_wf [OF assms(2)] by (auto dest: str_inj)
  also have "\<dots> \<longleftrightarrow> butlast (rel_parts c src1) = butlast (rel_parts c src2) \<and>
     stem (last (rel_parts c src1)) = stem (last (rel_parts c src2))"
    using assms by (auto simp: compile_dest_iff)
  finally show ?thesis .
qed

text \<open>The sources \<open>a.c\<close> and \<open>b.c\<close> of the example library.\<close>

theorem object_paths_collide_iff_witness:
  "compile_dest ex_target ex_core ''src/core/a.c'' =
     Inr (PurePath [] [''build'', ''t'', ''core'', ''obj'', ''a.o'']) \<and>
   compile_dest ex_target ex_core ''src/core/b.c'' =
     Inr (PurePath [] [''build'', ''t'', ''core'', ''obj'', ''b.o'']) \<and>
   str (PurePath [] [''build'', ''t'', ''core'', ''obj'', ''a.o'']) \<noteq>
   str (PurePath [] [''build'', ''t'', ''core'', ''obj'', ''b.o''])"
proof -
  have a: "compile_dest ex_target ex_core ''src/core/a.c'' =
     Inr (PurePath [] [''build'', ''t'', ''core'', ''obj'', ''a.o''])" by code_simp
  have b: "compile_dest ex_target ex_core ''src/core/b.c'' =
     Inr (PurePath [] [''build'', ''t'', ''core'', ''obj'', ''b.o''])" by code_simp
  have s: "stem (last (rel_parts ex_core ''src/core/a.c'')) \<noteq>
           stem (last (rel_parts ex_core ''src/core/b.c''))" by code_simp
  show ?thesis using object_paths_collide_iff [OF a b] a b s by simp
qed

text \<open>
  The sources \<open>a.cpp\<close> and \<open>a.cc\<close>, both of the C++ bucket: two edges with the one
  output \<open>build/t/core/obj/a.o\<close>.
\<close>

theorem object_path_collision:
  "''src/core/a.cpp'' \<noteq> ''src/core/a.cc'' \<and>
   compile [] ex_target ex_core ''cxx'' [''src/core/a.cpp'', ''src/core/a.cc''] =
     (Inr [''build/t/core/obj/a.o'', ''build/t/core/obj/a.o''],
      [Build [''build/t/core/obj/a.o''] ''cxx'' [''src/core/a.cpp''] [] [''/usr/bin/clang++''],
       Build [''build/t/core/obj/a.o''] ''cxx'' [''src/core/a.cc''] [] [''/usr/bin/clang++'']])"
  by code_simp

section \<open>The edges of \<open>compile\<close> and \<open>link\<close>\<close>

lemma compile_loop_edges:
  assumes "\<forall>src\<in>set srcs. under_root c src" and "srcs = [] \<or> map_of (tools t) rule \<noteq> None"
  shows "compile_loop t c rule srcs res w =
     (Inr (res @ map (object_path t c) srcs), w @ compile_edges t c rule srcs)"
  using assms
proof (induction srcs arbitrary: res w)
  case Nil
  then show ?case by (simp add: compile_edges_def split: option.splits)
next
  case (Cons src srcs)
  then obtain tool where tool: "map_of (tools t) rule = Some tool" by auto
  from Cons.prems obtain d where d: "compile_dest t c src = Inr d" "str d = object_path t c src"
    using compile_dest_str [of c src t] by auto
  have "compile_loop t c rule srcs (res @ [str d]) (w @ [Build [str d] rule [src] [] (files tool)]) =
     (Inr ((res @ [str d]) @ map (object_path t c) srcs),
      (w @ [Build [str d] rule [src] [] (files tool)]) @ compile_edges t c rule srcs)"
    using Cons.prems tool by (intro Cons.IH) auto
  then show ?case using tool d by (simp add: compile_edges_def)
qed

lemma compile_loop_writer:
  "\<exists>rest. snd (compile_loop t c rule srcs res w) = w @ rest \<and> (\<forall>s\<in>set rest. compile_edge rule s)"
proof (induction srcs arbitrary: res w)
  case Nil
  show ?case by simp
next
  case (Cons src srcs)
  show ?case
  proof (cases "compile_dest t c src")
    case (Inl e)
    then show ?thesis by simp
  next
    case (Inr d)
    show ?thesis
    proof (cases "map_of (tools t) rule")
      case None
      with Inr show ?thesis by simp
    next
      case (Some tool)
      let ?e = "Build [str d] rule [src] [] (files tool)"
      obtain rest where rest: "snd (compile_loop t c rule srcs (res @ [str d]) (w @ [?e])) = (w @ [?e]) @ rest"
        "\<forall>s\<in>set rest. compile_edge rule s"
        using Cons.IH by blast
      have "compile_edge rule ?e" by (simp add: compile_edge_def)
      with rest Inr Some show ?thesis
        by (intro exI [of _ "?e # rest"]) simp
    qed
  qed
qed

lemma compile_writer:
  "\<exists>rest. snd (compile w t c rule srcs) = w @ rest \<and> (\<forall>s\<in>set rest. compile_edge rule s)"
  unfolding compile_def by (rule compile_loop_writer)

lemma compileRes_loop_writer:
  "\<exists>rest. snd (compileRes_loop t c rs res w) = w @ rest \<and> (\<forall>s\<in>set rest. compile_edge ''cp'' s)"
proof (induction rs arbitrary: res w)
  case Nil
  show ?case by simp
next
  case (Cons r rs)
  show ?case
  proof (cases "relative_to (Path r) (subpath c ''res'')")
    case (Inl e)
    then show ?thesis by simp
  next
    case (Inr rel)
    let ?d = "str (joinpath (buildpath t c ''res'') rel)"
    let ?e = "Build [?d] ''cp'' [r] [] []"
    obtain rest where rest: "snd (compileRes_loop t c rs (res @ [?d]) (w @ [?e])) = (w @ [?e]) @ rest"
      "\<forall>s\<in>set rest. compile_edge ''cp'' s"
      using Cons.IH by blast
    have "compile_edge ''cp'' ?e" by (simp add: compile_edge_def)
    with rest Inr show ?thesis
      by (intro exI [of _ "?e # rest"]) (simp add: Let_def)
  qed
qed

lemma compileRes_writer:
  "\<exists>rest. snd (compileRes env w t c) = w @ rest \<and> (\<forall>s\<in>set rest. compile_edge ''cp'' s)"
  unfolding compileRes_def by (rule compileRes_loop_writer)

lemma compile_edge_not_terminal:
  "compile_edge rule s \<Longrightarrow> rule \<noteq> ''ar'' \<Longrightarrow> rule \<noteq> ''ld'' \<Longrightarrow> \<not> terminal_edge s"
  by (auto simp: compile_edge_def)

text \<open>
  \<open>link\<close> either fails in one of its first four steps, or reaches the collection of the
  dependencies; up to there it has written no terminal edge.
\<close>

lemma link_steps:
  obtains (fail) e rest where "link env w reg t c = (Inl e, w @ rest)" "\<forall>s\<in>set rest. \<not> terminal_edge s"
  | (reach) objs res rest where
      "\<forall>s\<in>set rest. \<not> terminal_edge s"
      "link env w reg t c =
         (case collectLibs reg t c of
            Inl e \<Rightarrow> (Inl e, w @ rest)
          | Inr libs \<Rightarrow>
              if ctype c = LIB
              then (Inr (outfile t c), (w @ rest) @ [Build [outfile t c] ''ar'' objs res []])
              else (Inr (outfile t c), (w @ rest) @ [Build [outfile t c] ''ld'' (objs @ libs) res []]))"
proof -
  let ?w0 = "w @ [Newline]"
  obtain r1 w1 where s1: "compile ?w0 t c ''cc'' (wilcard env c [''*.c'']) = (r1, w1)"
    by (cases "compile ?w0 t c ''cc'' (wilcard env c [''*.c''])") auto
  obtain x1 where x1: "w1 = ?w0 @ x1" "\<forall>s\<in>set x1. \<not> terminal_edge s"
    using compile_writer [of ?w0 t c "''cc''" "wilcard env c [''*.c'']"] s1
    by (auto dest: compile_edge_not_terminal)
  obtain r2 w2 where s2: "compile w1 t c ''cxx'' (wilcard env c [''*.cpp'', ''*.cc'', ''*.cxx'']) = (r2, w2)"
    by (cases "compile w1 t c ''cxx'' (wilcard env c [''*.cpp'', ''*.cc'', ''*.cxx''])") auto
  obtain x2 where x2: "w2 = w1 @ x2" "\<forall>s\<in>set x2. \<not> terminal_edge s"
    using compile_writer [of w1 t c "''cxx''" "wilcard env c [''*.cpp'', ''*.cc'', ''*.cxx'']"] s2
    by (auto dest: compile_edge_not_terminal)
  obtain r3 w3 where s3: "compile w2 t c ''as'' (wilcard env c [''*.s'', ''*.asm'', ''*.S'']) = (r3, w3)"
    by (cases "compile w2 t c ''as'' (wilcard env c [''*.s'', ''*.asm'', ''*.S''])") auto
  obtain x3 where x3: "w3 = w2 @ x3" "\<forall>s\<in>set x3. \<not> terminal_edge s"
    using compile_writer [of w2 t c "''as''" "wilcard env c [''*.s'', ''*.asm'', ''*.S'']"] s3
    by (auto dest: compile_edge_not_terminal)
  obtain r4 w4 where s4: "compileRes env w3 t c = (r4, w4)"
    by (cases "compileRes env w3 t c") auto
  obtain x4 where x4: "w4 = w3 @ x4" "\<forall>s\<in>set x4. \<not> terminal_edge s"
    using compileRes_writer [of env w3 t c] s4
    by (auto dest: compile_edge_not_terminal)
  show thesis
  proof (cases r1)
    case (Inl e)
    with s1 x1 show ?thesis
      by (intro fail [of e "[Newline] @ x1"]) (auto simp: link_def Let_def)
  next
    case a1: (Inr o1)
    show ?thesis
    proof (cases r2)
      case (Inl e)
      with s1 s2 a1 x1 x2 show ?thesis
        by (intro fail [of e "[Newline] @ x1 @ x2"]) (auto simp: link_def Let_def)
    next
      case a2: (Inr o2)
      show ?thesis
      proof (cases r3)
        case (Inl e)
        with s1 s2 s3 a1 a2 x1 x2 x3 show ?thesis
          by (intro fail [of e "[Newline] @ x1 @ x2 @ x3"]) (auto simp: link_def Let_def)
      next
        case a3: (Inr o3)
        show ?thesis
        proof (cases r4)
          case (Inl e)
          with s1 s2 s3 s4 a1 a2 a3 x1 x2 x3 x4 show ?thesis
            by (intro fail [of e "[Newline] @ x1 @ x2 @ x3 @ x4"]) (auto simp: link_def Let_def)
        next
          case a4: (Inr res)
          with s1 s2 s3 s4 a1 a2 a3 x1 x2 x3 x4 show ?thesis
            by (intro reach [of "[Newline] @ x1 @ x2 @ x3 @ x4" "o1 @ o2 @ o3" res])
               (auto simp: link_def Let_def split: sum.splits)
        qed
      qed
    qed
  qed
qed

lemma compile_bucket:
  assumes "bucket_ok env t c rule pats"
  shows "compile w t c rule (wilcard env c pats) =
     (Inr (map (object_path t c) (wilcard env c pats)),
      w @ compile_edges t c rule (wilcard env c pats))"
  using assms compile_loop_edges [of "wilcard env c pats" c t rule "[]" w]
  by (simp add: bucket_ok_def compile_def)

lemma buildpath_res:
  "buildpath t c ''res'' = PurePath (root (artifactRoot t c)) (parts (artifactRoot t c) @ [''res''])"
  by (simp add: buildpath_def artifactRoot_def joinpath_def Path_def splitroot_def
      parse_parts_def startswith_def)

lemma compileRes_loop_edges:
  assumes "\<forall>r\<in>set rs. res_under c r"
  shows "compileRes_loop t c rs res w =
     (Inr (res @ map (res_path t c) rs), w @ res_edges t c rs)"
  using assms
proof (induction rs arbitrary: res w)
  case Nil
  show ?case by (simp add: res_edges_def)
next
  case (Cons r rs)
  let ?rel = "PurePath [] (drop (length (parts (subpath c ''res''))) (parse_parts r))"
  from Cons.prems have rel: "relative_to (Path r) (subpath c ''res'') = Inr ?rel"
    by (simp add: res_under_def relative_to_def Path_def)
  have d: "str (joinpath (buildpath t c ''res'') ?rel) = res_path t c r"
    by (simp add: buildpath_res joinpath_def res_path_def)
  have "compileRes_loop t c rs (res @ [res_path t c r])
          (w @ [Build [res_path t c r] ''cp'' [r] [] []]) =
        (Inr ((res @ [res_path t c r]) @ map (res_path t c) rs),
         (w @ [Build [res_path t c r] ''cp'' [r] [] []]) @ res_edges t c rs)"
    using Cons.prems by (intro Cons.IH) simp
  then show ?case using rel d by (simp add: res_edges_def Let_def)
qed

lemma link_exact:
  assumes "sources_ok env t c"
  shows "link env w reg t c =
     (case collectLibs reg t c of
        Inl e \<Rightarrow> (Inl e, w @ link_body env t c)
      | Inr libs \<Rightarrow> (Inr (outfile t c), w @ link_body env t c @ [terminal env t c libs]))"
proof -
  from assms have b1: "bucket_ok env t c ''cc'' [''*.c'']"
    and b2: "bucket_ok env t c ''cxx'' [''*.cpp'', ''*.cc'', ''*.cxx'']"
    and b3: "bucket_ok env t c ''as'' [''*.s'', ''*.asm'', ''*.S'']"
    and r: "\<forall>r\<in>set (listRes env c). res_under c r"
    by (simp_all add: sources_ok_def)
  note s1 = compile_bucket [OF b1] and s2 = compile_bucket [OF b2] and s3 = compile_bucket [OF b3]
  have s4: "\<And>w. compileRes env w t c = (Inr (link_res env t c), w @ res_edges t c (listRes env c))"
    using compileRes_loop_edges [OF r] by (simp add: compileRes_def link_res_def)
  show ?thesis
    by (simp add: link_def Let_def s1 s2 s3 s4 link_body_def terminal_def link_objs_def
        split: sum.splits)
qed

lemma ex_sources_core: "sources_ok ex_env ex_target ex_core"
  by code_simp

lemma ex_sources_app: "sources_ok ex_env ex_target ex_bad_app"
  by code_simp

lemma ex_link_body_core:
  "link_body ex_env ex_target ex_core =
     [Newline, Build [''build/t/core/obj/a.o''] ''cc'' [''src/core/a.c''] [] [''/usr/bin/clang'']]"
  by code_simp

lemma ex_link_body_app:
  "link_body ex_env ex_target ex_bad_app =
     [Newline, Build [''build/t/app/obj/main.o''] ''cc'' [''src/app/main.c''] [] [''/usr/bin/clang'']]"
  by code_simp

lemma object_text:
  assumes "under_root c src" and "\<not> startswith (c_id c) ''/''"
    and "\<exists>ch\<in>set (builddir t). ch \<noteq> CHR ''/''"
  shows "object_path t c src = str (Path (spec_object_text t c src))"
proof -
  let ?ps = "butlast (rel_parts c src) @ [stem (last (rel_parts c src)) @ ''.o'']"
  from assms(1) have "rel_parts c src \<noteq> []" by (simp add: under_root_def)
  then have wf: "wf_parts ?ps" by (rule object_parts_wf)
  have o: "parse_parts (''obj'' @ CHR ''/'' # join ''/'' ?ps) = [''obj''] @ ?ps"
    unfolding parse_parts_append parse_parts_join [OF wf] by (simp add: parse_parts_def)
  have "parse_parts (c_id c @ CHR ''/'' # ''obj'' @ CHR ''/'' # join ''/'' ?ps) =
      parse_parts (c_id c) @ [''obj''] @ ?ps"
    unfolding parse_parts_append [of "c_id c"] o ..
  then have p: "parse_parts (c_id c @ ''/obj/'' @ join ''/'' ?ps) =
      parse_parts (c_id c) @ [''obj''] @ ?ps"
    by simp
  have "Path (spec_object_text t c src) =
      PurePath (splitroot (builddir t))
        (parse_parts (builddir t) @ parse_parts (c_id c) @ [''obj''] @ ?ps)"
    unfolding spec_object_text_def Path_text [OF assms(3)] p ..
  then show ?thesis
    by (simp add: object_path_def artifactRoot_text [OF assms(3,2)])
qed

lemma compile_edges_spec:
  assumes "\<forall>src\<in>set srcs. under_root c src" and "\<not> startswith (c_id c) ''/''"
    and "\<exists>ch\<in>set (builddir t). ch \<noteq> CHR ''/''"
  shows "compile_edges t c rule srcs = spec_compile_edges t c rule srcs"
  using assms
  by (auto simp: compile_edges_def spec_compile_edges_def object_text split: option.splits)

lemma res_edges_cp: "\<forall>s\<in>set (res_edges t c rs). compile_edge ''cp'' s"
  by (auto simp: res_edges_def compile_edge_def)

text \<open>
  C4. For a component whose id does not begin with a separator, under a target whose
  build directory holds a character other than the separator: \<open>compile\<close>, given the
  sources discovered for a rule that the target has a tool for, each below the
  component's directory, emits one edge per source, in order. Its output is the text
  \<open><builddir>/<componentId>/obj/\<close> followed by the path of the source relative to the
  component with the extension replaced by \<open>.o\<close>, in the normal form in which paths are
  printed; its only explicit input is the source, its rule is the given one, and its
  order-only inputs are the files of the target's tool for that rule. \<open>link\<close> calls it
  with the rule \<open>cc\<close> for \<open>*.c\<close>, \<open>cxx\<close> for \<open>*.cpp\<close>, \<open>*.cc\<close>, \<open>*.cxx\<close> and \<open>as\<close> for
  \<open>*.s\<close>, \<open>*.asm\<close>, \<open>*.S\<close>, and writes after these edges only the copies of the
  resources and at most one terminal edge.
\<close>

theorem compile_emits_edges:
  assumes "map_of (tools t) rule = Some tool" and "\<forall>src\<in>set srcs. under_root c src"
    and "\<not> startswith (c_id c) ''/''" and "\<exists>ch\<in>set (builddir t). ch \<noteq> CHR ''/''"
  shows "compile w t c rule srcs =
           (Inr (map (\<lambda>src. str (Path (spec_object_text t c src))) srcs),
            w @ map (\<lambda>src. Build [str (Path (spec_object_text t c src))] rule [src] []
                             (files tool)) srcs) \<and>
         (sources_ok env t c \<longrightarrow>
            (\<exists>copies rest.
               snd (link env w reg t c) =
                 w @ [Newline] @
                 spec_compile_edges t c ''cc'' (wilcard env c [''*.c'']) @
                 spec_compile_edges t c ''cxx'' (wilcard env c [''*.cpp'', ''*.cc'', ''*.cxx'']) @
                 spec_compile_edges t c ''as'' (wilcard env c [''*.s'', ''*.asm'', ''*.S'']) @
                 copies @ rest \<and>
               (\<forall>s\<in>set copies. compile_edge ''cp'' s) \<and>
               length rest \<le> 1 \<and> (\<forall>s\<in>set rest. terminal_edge s)))"
proof
  have "map (object_path t c) srcs = map (\<lambda>src. str (Path (spec_object_text t c src))) srcs"
    using assms(2) by (simp add: object_text [OF _ assms(3,4)])
  moreover have "compile_edges t c rule srcs =
      map (\<lambda>src. Build [str (Path (spec_object_text t c src))] rule [src] [] (files tool)) srcs"
    using assms(1) by (simp add: compile_edges_spec [OF assms(2-4)] spec_compile_edges_def)
  ultimately show "compile w t c rule srcs =
           (Inr (map (\<lambda>src. str (Path (spec_object_text t c src))) srcs),
            w @ map (\<lambda>src. Build [str (Path (spec_object_text t c src))] rule [src] []
                             (files tool)) srcs)"
    using assms(1,2) compile_loop_edges [of srcs c t rule "[]" w]
    by (simp add: compile_def)
next
  show "sources_ok env t c \<longrightarrow>
            (\<exists>copies rest.
               snd (link env w reg t c) =
                 w @ [Newline] @
                 spec_compile_edges t c ''cc'' (wilcard env c [''*.c'']) @
                 spec_compile_edges t c ''cxx'' (wilcard env c [''*.cpp'', ''*.cc'', ''*.cxx'']) @
                 spec_compile_edges t c ''as'' (wilcard env c [''*.s'', ''*.asm'', ''*.S'']) @
                 copies @ rest \<and>
               (\<forall>s\<in>set copies. compile_edge ''cp'' s) \<and>
               length rest \<le> 1 \<and> (\<forall>s\<in>set rest. terminal_edge s))"
  proof
    assume ok: "sources_ok env t c"
    then have b: "\<forall>src\<in>set (wilcard env c [''*.c'']). under_root c src"
      "\<forall>src\<in>set (wilcard env c [''*.cpp'', ''*.cc'', ''*.cxx'']). under_root c src"
      "\<forall>src\<in>set (wilcard env c [''*.s'', ''*.asm'', ''*.S'']). under_root c src"
      by (simp_all add: sources_ok_def bucket_ok_def)
    have body: "link_body env t c =
        [Newline] @
        spec_compile_edges t c ''cc'' (wilcard env c [''*.c'']) @
        spec_compile_edges t c ''cxx'' (wilcard env c [''*.cpp'', ''*.cc'', ''*.cxx'']) @
        spec_compile_edges t c ''as'' (wilcard env c [''*.s'', ''*.asm'', ''*.S'']) @
        res_edges t c (listRes env c)"
      by (simp add: link_body_def compile_edges_spec [OF b(1) assms(3,4)]
          compile_edges_spec [OF b(2) assms(3,4)] compile_edges_spec [OF b(3) assms(3,4)])
    show "\<exists>copies rest.
               snd (link env w reg t c) =
                 w @ [Newline] @
                 spec_compile_edges t c ''cc'' (wilcard env c [''*.c'']) @
                 spec_compile_edges t c ''cxx'' (wilcard env c [''*.cpp'', ''*.cc'', ''*.cxx'']) @
                 spec_compile_edges t c ''as'' (wilcard env c [''*.s'', ''*.asm'', ''*.S'']) @
                 copies @ rest \<and>
               (\<forall>s\<in>set copies. compile_edge ''cp'' s) \<and>
               length rest \<le> 1 \<and> (\<forall>s\<in>set rest. terminal_edge s)"
    proof (cases "collectLibs reg t c")
      case (Inl e)
      then show ?thesis
        using res_edges_cp [of t c "listRes env c"]
        by (intro exI [of _ "res_edges t c (listRes env c)"] exI [of _ "[]"])
          (simp add: link_exact [OF ok] body)
    next
      case (Inr libs)
      then show ?thesis
        using res_edges_cp [of t c "listRes env c"]
        by (intro exI [of _ "res_edges t c (listRes env c)"] exI [of _ "[terminal env t c libs]"])
          (simp add: link_exact [OF ok] body terminal_def)
    qed
  qed
qed

text \<open>The example library: its one source \<open>src/core/a.c\<close> gives \<open>build/t/core/obj/a.o\<close>.\<close>

theorem compile_emits_edges_witness:
  "map_of (tools ex_target) ''cc'' =
     Some \<lparr>cmd = ''clang'', args = [''-O2''], files = [''/usr/bin/clang'']\<rparr> \<and>
   under_root ex_core ''src/core/a.c'' \<and>
   \<not> startswith (c_id ex_core) ''/'' \<and>
   spec_object_text ex_target ex_core ''src/core/a.c'' = ''build/t/core/obj/a.o'' \<and>
   compile [] ex_target ex_core ''cc'' [''src/core/a.c''] =
     (Inr [''build/t/core/obj/a.o''],
      [Build [''build/t/core/obj/a.o''] ''cc'' [''src/core/a.c''] [] [''/usr/bin/clang'']]) \<and>
   sources_ok ex_env ex_target ex_core \<and>
   (\<exists>copies rest. snd (link ex_env [] ex_registry ex_target ex_core) =
      [Newline, Build [''build/t/core/obj/a.o''] ''cc'' [''src/core/a.c''] [] [''/usr/bin/clang'']] @
      copies @ rest \<and>
      (\<forall>s\<in>set copies. compile_edge ''cp'' s) \<and>
      length rest \<le> 1 \<and> (\<forall>s\<in>set rest. terminal_edge s))"
proof -
  have t: "map_of (tools ex_target) ''cc'' =
     Some \<lparr>cmd = ''clang'', args = [''-O2''], files = [''/usr/bin/clang'']\<rparr>"
    by (simp add: ex_target_def)
  have u: "under_root ex_core ''src/core/a.c''" by code_simp
  then have us: "\<forall>src\<in>set [''src/core/a.c'']. under_root ex_core src" by simp
  have i: "\<not> startswith (c_id ex_core) ''/''" by (simp add: ex_core_def startswith_def)
  have b: "\<exists>ch\<in>set (builddir ex_target). ch \<noteq> CHR ''/''" by (simp add: ex_target_def)
  have x: "spec_object_text ex_target ex_core ''src/core/a.c'' = ''build/t/core/obj/a.o''"
    by code_simp
  have n: "str (Path ''build/t/core/obj/a.o'') = ''build/t/core/obj/a.o''" by code_simp
  have e: "spec_compile_edges ex_target ex_core ''cc'' (wilcard ex_env ex_core [''*.c'']) =
      [Build [''build/t/core/obj/a.o''] ''cc'' [''src/core/a.c''] [] [''/usr/bin/clang'']]"
    "spec_compile_edges ex_target ex_core ''cxx''
       (wilcard ex_env ex_core [''*.cpp'', ''*.cc'', ''*.cxx'']) = []"
    "spec_compile_edges ex_target ex_core ''as''
       (wilcard ex_env ex_core [''*.s'', ''*.asm'', ''*.S'']) = []"
    by code_simp+
  show ?thesis
    using compile_emits_edges [OF t us i b, of "[]" ex_env ex_registry] t u i ex_sources_core
    by (simp add: x n e)
qed

text \<open>
  A component with the id \<open>/x\<close>: the id replaces the build directory, and the object of
  \<open>src/core/a.c\<close> is \<open>/x/obj/a.o\<close>, outside \<open>build/t\<close>, where the text
  \<open><builddir>/<componentId>/obj/a.o\<close> is \<open>build/t//x/obj/a.o\<close>. And a target whose build
  directory is empty: the object is \<open>core/obj/a.o\<close>, below the working directory, where
  the text is \<open>/core/obj/a.o\<close>, below the root of the file system.
\<close>

theorem object_outside_builddir:
  "under_root ex_absolute ''src/core/a.c'' \<and>
   compile [] ex_target ex_absolute ''cc'' [''src/core/a.c''] =
     (Inr [''/x/obj/a.o''],
      [Build [''/x/obj/a.o''] ''cc'' [''src/core/a.c''] [] [''/usr/bin/clang'']]) \<and>
   spec_object_text ex_target ex_absolute ''src/core/a.c'' = ''build/t//x/obj/a.o'' \<and>
   str (Path (spec_object_text ex_target ex_absolute ''src/core/a.c'')) = ''build/t/x/obj/a.o'' \<and>
   compile [] ex_here ex_core ''cc'' [''src/core/a.c''] =
     (Inr [''core/obj/a.o''],
      [Build [''core/obj/a.o''] ''cc'' [''src/core/a.c''] [] [''/usr/bin/clang'']]) \<and>
   spec_object_text ex_here ex_core ''src/core/a.c'' = ''/core/obj/a.o'' \<and>
   str (Path (spec_object_text ex_here ex_core ''src/core/a.c'')) = ''/core/obj/a.o''"
  by code_simp

section \<open>Dependencies that are not libraries\<close>

lemma find_offending:
  assumes "r \<in> set rs" and "offending reg c r"
  shows "\<exists>r'. find (offending reg c) rs = Some r' \<and> r' \<in> set rs \<and> offending reg c r'"
proof (cases "find (offending reg c) rs")
  case None
  with assms show ?thesis by (auto simp: find_None_iff)
next
  case (Some r')
  then show ?thesis by (auto simp: find_Some_iff)
qed

lemma collectLibs_loop_offender:
  assumes "\<forall>x\<in>set rs. lookup reg x \<noteq> None" and "find (offending reg c) rs = Some r'"
  shows "collectLibs_loop reg t c rs res =
           Inl (RuntimeError (''Component '' @ r' @ '' is not a library''))"
  using assms
proof (induction rs arbitrary: res)
  case Nil
  then show ?case by simp
next
  case (Cons x rs)
  then obtain req where req: "lookup reg x = Some req" by auto
  show ?case
  proof (cases "offending reg c x")
    case True
    with Cons.prems req show ?thesis by (simp add: offending_def)
  next
    case False
    with Cons.prems have "find (offending reg c) rs = Some r'" by simp
    with Cons have IH: "\<And>res. collectLibs_loop reg t c rs res =
           Inl (RuntimeError (''Component '' @ r' @ '' is not a library''))" by simp
    from False req show ?thesis by (auto simp: offending_def IH)
  qed
qed

lemma collectLibs_loop_never_list:
  assumes "r \<in> set rs" and "offending reg c r"
  shows "\<exists>e. collectLibs_loop reg t c rs res = Inl e"
  using assms
proof (induction rs arbitrary: res)
  case Nil
  then show ?case by simp
next
  case (Cons x rs)
  show ?case
  proof (cases "lookup reg x")
    case None
    then show ?thesis by simp
  next
    case (Some req)
    show ?thesis
    proof (cases "offending reg c x")
      case True
      with Some show ?thesis by (simp add: offending_def)
    next
      case False
      with Cons.prems have "r \<in> set rs" by auto
      with Cons have "\<And>res. \<exists>e. collectLibs_loop reg t c rs res = Inl e" by simp
      with Some False show ?thesis by (auto simp: offending_def)
    qed
  qed
qed

lemma link_collect_fails:
  assumes "collectLibs reg t c = Inl e0"
  shows "\<exists>e rest. link env w reg t c = (Inl e, w @ rest) \<and> (\<forall>s\<in>set rest. \<not> terminal_edge s)"
proof (cases rule: link_steps [of env w reg t c])
  case (fail e rest)
  then show ?thesis by blast
next
  case (reach objs res rest)
  with assms show ?thesis by auto
qed

text \<open>
  C1. When the resolved dependency list of a component for a target holds an id other
  than the component's own whose lookup gives a component that is not a library,
  \<open>collectLibs\<close> raises and returns no list, and \<open>link\<close> of that component raises too,
  having written no terminal edge. When the registry knows every id of the list, as the
  resolver promises, the error of \<open>collectLibs\<close> is \<open>Component <id> is not a library\<close> for
  the first such id of the list, and \<open>link\<close> raises that same error when the sources of
  the component compile.
\<close>

theorem link_rejects_non_library:
  assumes "resolved c (t_id t) = Some rs"
    and "r \<in> set rs" and "r \<noteq> c_id c" and "lookup reg r = Some req" and "ctype req \<noteq> LIB"
  shows "(\<exists>e. collectLibs reg t c = Inl e) \<and>
         (\<exists>e rest. link env w reg t c = (Inl e, w @ rest) \<and> (\<forall>s\<in>set rest. \<not> terminal_edge s)) \<and>
         ((\<forall>x\<in>set rs. lookup reg x \<noteq> None) \<longrightarrow>
            (\<exists>r'. find (offending reg c) rs = Some r' \<and> r' \<in> set rs \<and> offending reg c r' \<and>
               collectLibs reg t c =
                 Inl (RuntimeError (''Component '' @ r' @ '' is not a library'')) \<and>
               (sources_ok env t c \<longrightarrow>
                  link env w reg t c =
                    (Inl (RuntimeError (''Component '' @ r' @ '' is not a library'')),
                     w @ link_body env t c))))"
proof -
  from assms have off: "offending reg c r" by (simp add: offending_def)
  obtain e0 where e0: "collectLibs reg t c = Inl e0"
    using collectLibs_loop_never_list [OF assms(2) off, of t "[]"] assms(1)
    by (auto simp: collectLibs_def)
  have l: "\<exists>e rest. link env w reg t c = (Inl e, w @ rest) \<and> (\<forall>s\<in>set rest. \<not> terminal_edge s)"
    using e0 by (rule link_collect_fails)
  have n: "(\<forall>x\<in>set rs. lookup reg x \<noteq> None) \<longrightarrow>
            (\<exists>r'. find (offending reg c) rs = Some r' \<and> r' \<in> set rs \<and> offending reg c r' \<and>
               collectLibs reg t c =
                 Inl (RuntimeError (''Component '' @ r' @ '' is not a library'')) \<and>
               (sources_ok env t c \<longrightarrow>
                  link env w reg t c =
                    (Inl (RuntimeError (''Component '' @ r' @ '' is not a library'')),
                     w @ link_body env t c)))"
  proof
    assume found: "\<forall>x\<in>set rs. lookup reg x \<noteq> None"
    obtain r' where r': "find (offending reg c) rs = Some r'" "r' \<in> set rs" "offending reg c r'"
      using find_offending [OF assms(2) off] by blast
    have cl: "collectLibs reg t c = Inl (RuntimeError (''Component '' @ r' @ '' is not a library''))"
      using collectLibs_loop_offender [OF found r'(1)] assms(1) by (simp add: collectLibs_def)
    then have "sources_ok env t c \<longrightarrow>
              link env w reg t c =
                (Inl (RuntimeError (''Component '' @ r' @ '' is not a library'')),
                 w @ link_body env t c)"
      by (simp add: link_exact)
    with r' cl show "\<exists>r'. find (offending reg c) rs = Some r' \<and> r' \<in> set rs \<and> offending reg c r' \<and>
               collectLibs reg t c =
                 Inl (RuntimeError (''Component '' @ r' @ '' is not a library'')) \<and>
               (sources_ok env t c \<longrightarrow>
                  link env w reg t c =
                    (Inl (RuntimeError (''Component '' @ r' @ '' is not a library'')),
                     w @ link_body env t c))"
      by blast
  qed
  from e0 l n show ?thesis by blast
qed

text \<open>The executable \<open>app\<close> resolved to depend on the executable \<open>tool\<close>.\<close>

theorem link_rejects_non_library_witness:
  "resolved ex_bad_app (t_id ex_target) = Some [''core'', ''tool'', ''app''] \<and>
   lookup ex_bad_registry ''tool'' = Some ex_tool \<and> ctype ex_tool \<noteq> LIB \<and>
   ''tool'' \<noteq> c_id ex_bad_app \<and>
   collectLibs ex_bad_registry ex_target ex_bad_app =
     Inl (RuntimeError ''Component tool is not a library'') \<and>
   link ex_env [] ex_bad_registry ex_target ex_bad_app =
     (Inl (RuntimeError ''Component tool is not a library''),
      [Newline, Build [''build/t/app/obj/main.o''] ''cc'' [''src/app/main.c''] [] [''/usr/bin/clang'']])"
proof -
  have h1: "resolved ex_bad_app (t_id ex_target) = Some [''core'', ''tool'', ''app'']"
    by (simp add: ex_bad_app_def ex_app_def ex_target_def)
  have h2: "\<forall>x\<in>set [''core'', ''tool'', ''app'']. lookup ex_bad_registry x \<noteq> None"
    by (simp add: ex_bad_registry_def)
  have h3: "''tool'' \<in> set [''core'', ''tool'', ''app'']" by simp
  have h4: "''tool'' \<noteq> c_id ex_bad_app" by (simp add: ex_bad_app_def ex_app_def)
  have h5: "lookup ex_bad_registry ''tool'' = Some ex_tool" by (simp add: ex_bad_registry_def)
  have h6: "ctype ex_tool \<noteq> LIB" by (simp add: ex_tool_def)
  have f: "find (offending ex_bad_registry ex_bad_app) [''core'', ''tool'', ''app''] = Some ''tool''"
    by code_simp
  obtain r' where r: "find (offending ex_bad_registry ex_bad_app) [''core'', ''tool'', ''app''] = Some r'"
    and c: "collectLibs ex_bad_registry ex_target ex_bad_app =
              Inl (RuntimeError (''Component '' @ r' @ '' is not a library''))"
    and l: "sources_ok ex_env ex_target ex_bad_app \<longrightarrow>
              link ex_env [] ex_bad_registry ex_target ex_bad_app =
                (Inl (RuntimeError (''Component '' @ r' @ '' is not a library'')),
                 [] @ link_body ex_env ex_target ex_bad_app)"
    using link_rejects_non_library [OF h1 h3 h4 h5 h6, of ex_env "[]"] h2 by blast
  from r f have "r' = ''tool''" by simp
  with c l ex_sources_app h1 h4 h5 h6 show ?thesis by (simp add: ex_link_body_app)
qed

section \<open>The aggregate goal\<close>

lemma link_out: "link env w reg t c = (Inr out, w') \<Longrightarrow> out = outfile t c"
  by (cases rule: link_steps [of env w reg t c]) (auto split: sum.splits if_splits)

lemma all_loop_outs:
  "all_loop env reg t cs acc w = (Inr outs, w') \<Longrightarrow> outs = acc @ map (outfile t) cs"
proof (induction cs arbitrary: acc w)
  case Nil
  then show ?case by simp
next
  case (Cons c cs)
  obtain r w1 where l: "link env w reg t c = (r, w1)" by (cases "link env w reg t c") auto
  show ?case
  proof (cases r)
    case (Inl e)
    with l Cons.prems show ?thesis by simp
  next
    case (Inr out)
    with l have "out = outfile t c" by (auto dest: link_out)
    with l Inr Cons.prems have "all_loop env reg t cs (acc @ [outfile t c]) w1 = (Inr outs, w')" by simp
    then have "outs = (acc @ [outfile t c]) @ map (outfile t) cs" by (rule Cons.IH)
    then show ?thesis by simp
  qed
qed

lemma all_goal:
  assumes "all env w reg t = (Inr outs, w')"
  shows "outs = map (outfile t) (iterEnabled reg t) \<and>
     (\<exists>body. w' = body @ [Build [''all''] ''phony'' outs [] [], Default ''all''])"
proof -
  obtain r w1 where l: "all_loop env reg t (iterEnabled reg t) [] w = (r, w1)"
    by (cases "all_loop env reg t (iterEnabled reg t) [] w") auto
  with assms have r: "r = Inr outs" and w': "w' = w1 @ [Build [''all''] ''phony'' outs [] [], Default ''all'']"
    by (auto simp: all_def split: sum.splits)
  from l r have "outs = [] @ map (outfile t) (iterEnabled reg t)" by (auto dest: all_loop_outs)
  with w' show ?thesis by auto
qed

lemma gen_goal:
  assumes "gen env t reg = (Inr u, f)"
  shows "\<exists>body. f = body @
     [Build [''all''] ''phony'' (map (outfile t) (iterEnabled reg t)) [] [], Default ''all'']"
  using assms
  by (auto simp: gen_def Let_def split: sum.splits prod.splits dest!: all_goal)

lemma collectLibs_loop_ok:
  assumes "\<forall>x\<in>set rs. lookup reg x \<noteq> None \<and> \<not> offending reg c x"
  shows "collectLibs_loop reg t c rs res =
     Inr (res @ map (\<lambda>x. outfile t (the (lookup reg x))) (filter (\<lambda>x. x \<noteq> c_id c) rs))"
  using assms
proof (induction rs arbitrary: res)
  case Nil
  show ?case by simp
next
  case (Cons x rs)
  then obtain req where req: "lookup reg x = Some req" by auto
  from Cons.prems have IH: "\<And>res. collectLibs_loop reg t c rs res =
     Inr (res @ map (\<lambda>x. outfile t (the (lookup reg x))) (filter (\<lambda>x. x \<noteq> c_id c) rs))"
    by (intro Cons.IH) simp
  from Cons.prems req have "x = c_id c \<or> ctype req = LIB" by (auto simp: offending_def)
  with req show ?case by (auto simp: IH)
qed

lemma link_ready_out:
  assumes "link_ready env reg t c"
  shows "\<exists>w'. link env w reg t c = (Inr (outfile t c), w')"
proof -
  from assms obtain rs where rs: "resolved c (t_id t) = Some rs"
    and ok: "\<forall>x\<in>set rs. lookup reg x \<noteq> None \<and> \<not> offending reg c x"
    and src: "sources_ok env t c"
    by (auto simp: link_ready_def split: option.splits)
  from rs collectLibs_loop_ok [OF ok, of t "[]"]
  have "\<exists>libs. collectLibs reg t c = Inr libs" by (simp add: collectLibs_def)
  then show ?thesis by (auto simp: link_exact [OF src])
qed

lemma all_loop_ready:
  assumes "\<forall>c\<in>set cs. link_ready env reg t c"
  shows "\<exists>w'. all_loop env reg t cs acc w = (Inr (acc @ map (outfile t) cs), w')"
  using assms
proof (induction cs arbitrary: acc w)
  case Nil
  show ?case by simp
next
  case (Cons c cs)
  then obtain w1 where l: "link env w reg t c = (Inr (outfile t c), w1)"
    using link_ready_out [of env reg t c w] by auto
  from Cons.prems obtain w' where
    "all_loop env reg t cs (acc @ [outfile t c]) w1 = (Inr ((acc @ [outfile t c]) @ map (outfile t) cs), w')"
    using Cons.IH [of "acc @ [outfile t c]" w1] by auto
  with l show ?case by simp
qed

lemma gen_tools_ready:
  assumes "\<forall>i\<in>set (map fst ts). rules env i \<noteq> None"
  shows "\<exists>w'. gen_tools env ts w = (Inr (), w')"
  using assms
proof (induction ts arbitrary: w)
  case Nil
  show ?case by simp
next
  case (Cons it ts)
  obtain i tool where it: "it = (i, tool)" by (cases it)
  with Cons.prems obtain rule where "rules env i = Some rule" by auto
  with it Cons show ?case by simp
qed

lemma gen_ready_succeeds:
  assumes "gen_ready env t reg"
  shows "\<exists>f. gen env t reg = (Inr (), f)"
proof -
  let ?w = "[Comment ''File generated by the build system, do not edit'', Newline,
     Variable ''builddir'' (builddir t), Variable ''hashid'' (hashid t), Separator ''Tools'',
     Variable ''cincs'' (join '' '' (set_iter env (aggregateCincs t reg))),
     Variable ''cdefs'' (join '' '' (set_iter env (aggregateCdefs t))), Newline,
     RuleDecl ''cp'' ''cp $in $out'' None]"
  from assms obtain w1 where g: "gen_tools env (tools t) ?w = (Inr (), w1)"
    using gen_tools_ready [of "tools t" env ?w] by (auto simp: gen_ready_def)
  from assms obtain w2 where
    "all_loop env reg t (iterEnabled reg t) [] (w1 @ [Separator ''Build'']) =
       (Inr ([] @ map (outfile t) (iterEnabled reg t)), w2)"
    using all_loop_ready [of "iterEnabled reg t" env reg t "[]" "w1 @ [Separator ''Build'']"]
    by (auto simp: gen_ready_def)
  with g show ?thesis by (simp add: gen_def all_def)
qed

section \<open>The scope of a build\<close>

lemma build_run:
  assumes "mkdir_ok env (builddir t)" and "open_ok env (ninjaPath t)"
    and "gen env t reg = (Inr u, f)"
  shows "build env t reg rq world =
     (let cs = (case rq of NoComponents \<Rightarrow> iterEnabled reg t | Single c \<Rightarrow> [c] | Several cs \<Rightarrow> cs);
          argv = ninja_argv (ninjaPath t) @
                 (case rq of NoComponents \<Rightarrow> [] | _ \<Rightarrow> map (outfile t) cs)
      in if exec_ok env argv
         then (Inr (map (product_of t) cs), built_world t f argv world)
         else (Inl (ShellException argv), built_world t f argv world))"
proof -
  have p: "\<And>cs. map (\<lambda>c. \<lparr>p_path = Path (outfile t c), p_target = t, p_component = c\<rparr>) cs =
              map (product_of t) cs"
    by (simp add: product_of_def)
  have o: "\<And>c. str (p_path (product_of t c)) = outfile t c"
    by (simp add: product_of_def outfile_str_Path)
  show ?thesis
    using assms
    by (cases rq)
       (simp_all add: build_def Let_def ninjaPath_def [symmetric] built_world_def p o comp_def)
qed

text \<open>The document of the example project.\<close>

lemma ex_gen_ready: "gen_ready ex_env ex_target ex_registry"
  by code_simp

lemma ex_gen: "gen ex_env ex_target ex_registry = (Inr (), ex_document)"
  by code_simp

text \<open>
  C2. When the build directory is made, the graph file is opened, \<open>gen\<close> writes the
  document (as it does under \<open>gen_ready\<close>) and the executor succeeds: \<open>build\<close> with no
  component requested returns one Product per component enabled for the target and runs
  the executor with no goal, so on the default goal, which the document sets to the
  aggregate edge \<open>all\<close> over the final artifacts of the enabled components; with one
  component it runs the executor on that component's final artifact and returns that
  one Product; with a list of components it runs the executor on exactly their final
  artifacts, in order, and returns one Product per component of the list.
\<close>

theorem build_scope:
  assumes "mkdir_ok env (builddir t)" and "open_ok env (ninjaPath t)"
    and "gen env t reg = (Inr (), f)"
  shows "(exec_ok env (ninja_argv (ninjaPath t)) \<longrightarrow>
            build env t reg NoComponents world =
              (Inr (map (product_of t) (iterEnabled reg t)),
               built_world t f (ninja_argv (ninjaPath t)) world)) \<and>
         (exec_ok env (ninja_argv (ninjaPath t) @ [outfile t c]) \<longrightarrow>
            build env t reg (Single c) world =
              (Inr [product_of t c],
               built_world t f (ninja_argv (ninjaPath t) @ [outfile t c]) world)) \<and>
         (exec_ok env (ninja_argv (ninjaPath t) @ map (outfile t) cs) \<longrightarrow>
            build env t reg (Several cs) world =
              (Inr (map (product_of t) cs),
               built_world t f (ninja_argv (ninjaPath t) @ map (outfile t) cs) world)) \<and>
         (\<exists>body. f = body @
            [Build [''all''] ''phony'' (map (outfile t) (iterEnabled reg t)) [] [],
             Default ''all''])"
  using gen_goal [OF assms(3)] by (simp add: build_run [OF assms])

text \<open>The example: a full build, a build of \<open>app\<close>, a build of \<open>app\<close> and \<open>core\<close>.\<close>

theorem build_scope_witness:
  "build ex_env ex_target ex_registry NoComponents ex_world =
     (Inr [product_of ex_target ex_core, product_of ex_target ex_app],
      built_world ex_target ex_document [''ninja'', ''-v'', ''-f'', ''build/t/build.ninja''] ex_world) \<and>
   build ex_env ex_target ex_registry (Single ex_app) ex_world =
     (Inr [product_of ex_target ex_app],
      built_world ex_target ex_document
        [''ninja'', ''-v'', ''-f'', ''build/t/build.ninja'', ''build/t/app/bin/app.out''] ex_world) \<and>
   build ex_env ex_target ex_registry (Several [ex_app, ex_core]) ex_world =
     (Inr [product_of ex_target ex_app, product_of ex_target ex_core],
      built_world ex_target ex_document
        [''ninja'', ''-v'', ''-f'', ''build/t/build.ninja'', ''build/t/app/bin/app.out'',
         ''build/t/core/lib/core.a''] ex_world)"
proof -
  have m: "mkdir_ok ex_env (builddir ex_target)" and o: "open_ok ex_env (ninjaPath ex_target)"
    and x: "\<And>argv. exec_ok ex_env argv"
    by (simp_all add: ex_env_def)
  have e: "iterEnabled ex_registry ex_target = [ex_core, ex_app]"
    by (simp add: ex_registry_def)
  show ?thesis
    using build_scope [OF m o ex_gen, where c = ex_app and cs = "[ex_app, ex_core]" and world = ex_world]
    by (simp add: x e ex_outfile_core ex_outfile_app ex_ninjaPath ninja_argv_def)
qed

text \<open>
  C10. When the build directory is made, the graph file is opened, \<open>gen\<close> writes the
  document and the executor succeeds, \<open>build\<close> with an empty list of components writes
  the graph file, returns no Product, and runs the executor with no artifact path: the
  invocation \<open>ninja -v -f <ninjaPath>\<close>, which is that of a full build.
\<close>

theorem build_empty_list:
  assumes "mkdir_ok env (builddir t)" and "open_ok env (ninjaPath t)"
    and "gen env t reg = (Inr (), f)" and "exec_ok env (ninja_argv (ninjaPath t))"
  shows "build env t reg (Several []) world =
           (Inr [], built_world t f (ninja_argv (ninjaPath t)) world) \<and>
         execs (snd (build env t reg (Several []) world)) =
           execs world @ [[''ninja'', ''-v'', ''-f'', ninjaPath t]] \<and>
         execs (snd (build env t reg (Several []) world)) =
           execs (snd (build env t reg NoComponents world)) \<and>
         (\<exists>body. f = body @
            [Build [''all''] ''phony'' (map (outfile t) (iterEnabled reg t)) [] [],
             Default ''all''])"
  using assms(4) gen_goal [OF assms(3)]
  by (simp add: build_run [OF assms(1-3)] built_world_def ninja_argv_def)

text \<open>The example, with an empty list.\<close>

theorem build_empty_list_witness:
  "build ex_env ex_target ex_registry (Several []) ex_world =
     (Inr [], built_world ex_target ex_document [''ninja'', ''-v'', ''-f'', ''build/t/build.ninja''] ex_world) \<and>
   execs (snd (build ex_env ex_target ex_registry (Several []) ex_world)) =
     execs (snd (build ex_env ex_target ex_registry NoComponents ex_world))"
proof -
  have m: "mkdir_ok ex_env (builddir ex_target)" and o: "open_ok ex_env (ninjaPath ex_target)"
    and x: "exec_ok ex_env (ninja_argv (ninjaPath ex_target))"
    by (simp_all add: ex_env_def)
  show ?thesis
    using build_empty_list [OF m o ex_gen x, of ex_world]
    unfolding ex_ninjaPath ninja_argv_def by blast
qed

section \<open>Commands naming an unknown component\<close>

text \<open>
  \<open>run\<close> refuses an id that the registry does not hold before anything is built;
  \<open>build\<close> passes the \<open>None\<close> of the lookup on to \<open>build\<close>, which reads it as ``no component
  requested''.
\<close>

lemma runCmd_not_found:
  assumes "lookup reg spec = None"
  shows "runCmd env reg t \<lparr>opt_debug = dbg, cli_args = spec # rest\<rparr> world =
     (Inl (RuntimeError (''Component '' @ spec @ '' not found'')), world)"
  using assms by (simp add: runCmd_def consumeArg_def)

lemma buildCmd_not_found:
  assumes "lookup reg spec = None"
  shows "buildCmd env reg t \<lparr>opt_debug = dbg, cli_args = spec # rest\<rparr> world =
     (case build env t reg NoComponents world of
        (Inl e, world') \<Rightarrow> (Inl e, world')
      | (Inr products, world') \<Rightarrow>
          (case item0 products of Inl e \<Rightarrow> (Inl e, world') | Inr p \<Rightarrow> (Inr (), world')))"
  using assms by (simp add: buildCmd_def consumeArg_def requested_def)

text \<open>
  C7. In the example, the command \<open>build nope\<close>, for the id \<open>nope\<close> that the registry does
  not hold, raises nothing: it writes the graph file and runs the executor on the default
  goal, a full build.
\<close>

theorem buildCmd_unknown_builds_all:
  "lookup ex_registry ''nope'' = None \<and>
   buildCmd ex_env ex_registry ex_target \<lparr>opt_debug = False, cli_args = [''nope'']\<rparr> ex_world =
     (Inr (), \<lparr>dirs = [''build/t''], written = [(''build/t/build.ninja'', ex_document)],
              execs = [[''ninja'', ''-v'', ''-f'', ''build/t/build.ninja'']], environ = []\<rparr>)"
  by code_simp

end
